theory Spec2Isabelle
  imports Complex_Main "HOL-Library.Multiset"
begin

section \<open>The store of the geo-portal: \<^verbatim>\<open>src/store/index.js\<close>\<close>

text \<open>
  The Vuex store keeps the layer catalog, the flat list of contexts and the tree of
  groups. Groups and contexts are JavaScript objects that are shared between the tree,
  the flat list and the editing references, and they point back at their parent, so the
  objects live in an explicit heap: a reference is an address, the heap maps every
  address to the object stored there. Layers and time instants are never written to by
  the store; they are values, and a layer carries the identity of its object with it.

  Numeric ids are natural numbers (they index the \<^verbatim>\<open>contextsTimes\<close> array).
  \<^verbatim>\<open>null\<close> and \<^verbatim>\<open>undefined\<close> are \<open>None\<close>.
\<close>

subsection \<open>Objects\<close>

type_synonym ref = nat

text \<open>A time instant of a layer: the store reads its \<^verbatim>\<open>iso8601\<close> property only.\<close>

record time =
  iso8601 :: string

datatype statistic = AttributesStatistics "string list" | UrlStatistics string

text \<open>
  A layer of the catalog. \<open>layer_ref\<close> is the identity of the object: two layers are the
  same object exactly when they have the same \<open>layer_ref\<close>, and since no property of a
  layer is ever written, exactly when they are equal records. \<open>layer_type\<close> is the property \<^verbatim>\<open>type\<close>, \<open>layer_times\<close> the
  property \<^verbatim>\<open>times\<close>: the store reads it for \<^verbatim>\<open>wms\<close> layers only, and a \<^verbatim>\<open>wms\<close> layer
  always has the array, empty when the layer declares no time. \<open>statistics\<close> is \<open>None\<close>
  when the layer has no such property.
\<close>

record layer =
  layer_ref :: nat
  layer_id :: nat
  layer_type :: string
  layer_times :: "time list"
  statistics :: "statistic list option"

text \<open>
  A node of the tree, a Group or a Context object. \<open>item_id\<close>, \<open>item_layers\<close> and
  \<open>item_times\<close> are the properties \<^verbatim>\<open>id\<close>, \<^verbatim>\<open>layers\<close> and \<^verbatim>\<open>times\<close>; an entry of
  \<open>item_layers\<close> is \<open>None\<close> where the array holds \<^verbatim>\<open>undefined\<close>. \<open>items\<close> is \<open>None\<close> on an
  object without that property (a Context), \<open>parent\<close> is \<open>None\<close> on the root.
\<close>

record item =
  item_id :: nat
  isGroup :: bool
  label :: string
  labels :: "(string \<times> string) list"
  infoFile :: "string option"
  exclusive :: bool
  active :: bool
  inlineLegendUrl :: "string option"
  item_layers :: "layer option list"
  item_times :: "time list"
  items :: "ref list option"
  parent :: "ref option"

type_synonym heap = "ref \<Rightarrow> item"

text \<open>The root state object (lines 24-38), together with the heap of its objects.\<close>

record state =
  heap :: heap
  layers :: "layer list"
  contexts :: "ref list"
  groups :: "ref option"
  layerInfo :: "(string \<times> string) option"
  contextsTimes :: "time option list"
  kmlOverlay :: "string option"
  enableFeedback :: bool
  activeContextsIds :: "nat list"
  editing :: bool
  editGroup :: "ref option"
  editContext :: "ref option"
  editLayers :: bool

text \<open>
  What a mutation can throw: \<open>TypeError\<close> for a property read or written on
  \<^verbatim>\<open>null\<close>/\<^verbatim>\<open>undefined\<close>, \<open>RangeError\<close> for a recursion that exhausts the call stack.
  A handler that throws leaves the writes it has already made in place, so the error
  comes with the state at the moment of the throw.
\<close>

datatype error = TypeError | RangeError

type_synonym result = "(error \<times> state) + state"

subsection \<open>Array methods\<close>

text \<open>\<^verbatim>\<open>arr.findIndex(p)\<close>; \<open>None\<close> is the result \<^verbatim>\<open>-1\<close>.\<close>

fun findIndex :: "('a \<Rightarrow> bool) \<Rightarrow> 'a list \<Rightarrow> nat option" where
  "findIndex p [] = None"
| "findIndex p (x # xs) = (if p x then Some 0 else map_option Suc (findIndex p xs))"

text \<open>\<^verbatim>\<open>arr.indexOf(v)\<close>.\<close>

definition indexOf :: "'a list \<Rightarrow> 'a \<Rightarrow> nat option" where
  "indexOf arr v = findIndex (\<lambda>el. el = v) arr"

text \<open>\<^verbatim>\<open>arr.filter((elem, pos) => p(elem, pos))\<close>: a filter whose callback sees the position.\<close>

definition filter_pos :: "('a \<Rightarrow> nat \<Rightarrow> bool) \<Rightarrow> 'a list \<Rightarrow> 'a list" where
  "filter_pos p arr = map fst (filter (\<lambda>(elem, pos). p elem pos) (zip arr [0..<length arr]))"

text \<open>
  \<^verbatim>\<open>arr.splice(start, 1)\<close> with \<open>start\<close> an index of the array, and
  \<^verbatim>\<open>arr.splice(start, 1, v)\<close> for any \<open>start \<ge> 0\<close>: a start past the end is clamped to the
  length, and then nothing is deleted.
\<close>

definition splice_delete :: "nat \<Rightarrow> 'a list \<Rightarrow> 'a list" where
  "splice_delete start arr = take start arr @ drop (Suc start) arr"

definition splice_replace :: "nat \<Rightarrow> 'a \<Rightarrow> 'a list \<Rightarrow> 'a list" where
  "splice_replace start v arr =
     (let s = min start (length arr) in take s arr @ [v] @ drop (Suc s) arr)"

text \<open>
  \<^verbatim>\<open>arr[i] = v\<close> on an array with holes (a hole is \<open>None\<close>): writing past the end extends
  the array. \<^verbatim>\<open>arr[i]\<close> past the end reads \<^verbatim>\<open>undefined\<close>.
\<close>

definition array_set :: "'a option list \<Rightarrow> nat \<Rightarrow> 'a \<Rightarrow> 'a option list" where
  "array_set arr i v =
     (if i < length arr then arr[i := Some v]
      else arr @ replicate (i - length arr) None @ [Some v])"


subsection \<open>Tree lookup\<close>

text \<open>
  Modelled from the spec: \<^verbatim>\<open>findById\<close> is a method of the Group and Context classes of
  \<^verbatim>\<open>layersConfig\<close>, a module the store imports that is not among the sources. The spec:
  "depth-first search over \<^verbatim>\<open>items\<close>, returning the first Group or Context whose id
  matches", in insertion order at each level, absent otherwise. The search starts at the
  node it is called on. \<open>findById_from\<close> is that search with the nodes still to visit as a
  stack; on a heap whose \<^verbatim>\<open>items\<close> form a cycle that holds no match the search does not
  return, which is the value \<open>None\<close> here. \<open>Some None\<close> is the answer "absent".
\<close>

definition children :: "item \<Rightarrow> ref list" where
  "children node = (case items node of None \<Rightarrow> [] | Some cs \<Rightarrow> cs)"

partial_function (option) findById_from :: "heap \<Rightarrow> ref list \<Rightarrow> nat \<Rightarrow> ref option option" where
  "findById_from h stack i =
     (case stack of
        [] \<Rightarrow> Some None
      | r # rest \<Rightarrow>
          if item_id (h r) = i then Some (Some r)
          else findById_from h (children (h r) @ rest) i)"

definition findById :: "heap \<Rightarrow> ref \<Rightarrow> nat \<Rightarrow> ref option option" where
  "findById h node i = findById_from h [node] i"

subsection \<open>The Time Aggregator: \<^verbatim>\<open>setContextsTimes\<close> (lines 7-20)\<close>

text \<open>
  \<^verbatim>\<open>Date.parse\<close> and \<^verbatim>\<open>Array.prototype.sort\<close> are built-ins of the language, not code of
  the store, so they are parameters of everything that aggregates times: the two fields
  of \<open>builtins\<close>. \<open>Date_parse\<close> gives the instant of a string in milliseconds, or \<open>None\<close>
  where \<^verbatim>\<open>Date.parse\<close> gives \<^verbatim>\<open>NaN\<close>. \<open>Array_sort\<close> is the sort of an array of times with a
  comparator; a comparator's result \<open>None\<close> is \<^verbatim>\<open>NaN\<close>. Nothing is assumed of either here:
  what the language promises of the sort is a hypothesis where a proof needs it.
\<close>

record builtins =
  Date_parse :: "string \<Rightarrow> int option"
  Array_sort :: "(time \<Rightarrow> time \<Rightarrow> int option) \<Rightarrow> time list \<Rightarrow> time list"

text \<open>
  \<^verbatim>\<open>c.layers.filter(l => l.type === 'wms' && l.times.length)\<close>: the callback reads a
  property of every entry, so an \<^verbatim>\<open>undefined\<close> entry throws.
\<close>

fun wms_with_times :: "layer option list \<Rightarrow> error + layer list" where
  "wms_with_times [] = Inr []"
| "wms_with_times (None # ls) = Inl TypeError"
| "wms_with_times (Some l # ls) =
     (case wms_with_times ls of
        Inl e \<Rightarrow> Inl e
      | Inr keep \<Rightarrow>
          Inr (if layer_type l = ''wms'' \<and> layer_times l \<noteq> [] then l # keep else keep))"

text \<open>\<^verbatim>\<open>.reduce((contextTimes, l) => contextTimes.concat(l.times), [])\<close>\<close>

definition concat_times :: "layer list \<Rightarrow> time list" where
  "concat_times ls = foldl (\<lambda>contextTimes l. contextTimes @ layer_times l) [] ls"

text \<open>
  \<^verbatim>\<open>.filter((elem, pos, arr) => arr.findIndex(el => el.iso8601 === elem.iso8601) === pos)\<close>
\<close>

definition remove_duplicates :: "time list \<Rightarrow> time list" where
  "remove_duplicates arr =
     filter_pos (\<lambda>elem pos. findIndex (\<lambda>el. iso8601 el = iso8601 elem) arr = Some pos) arr"

text \<open>
  \<^verbatim>\<open>.sort((t1, t2) => Date.parse(t1.iso8601) - Date.parse(t2.iso8601))\<close>: the comparator is
  the difference of the two instants, \<^verbatim>\<open>NaN\<close> when one of them is \<^verbatim>\<open>NaN\<close>.
\<close>

definition compare_times :: "builtins \<Rightarrow> time \<Rightarrow> time \<Rightarrow> int option" where
  "compare_times js t1 t2 =
     (case Date_parse js (iso8601 t1) of
        None \<Rightarrow> None
      | Some i1 \<Rightarrow>
          (case Date_parse js (iso8601 t2) of
             None \<Rightarrow> None
           | Some i2 \<Rightarrow> Some (i1 - i2)))"

definition sort_times :: "builtins \<Rightarrow> time list \<Rightarrow> time list" where
  "sort_times js ts = Array_sort js (compare_times js) ts"

definition aggregate_times :: "builtins \<Rightarrow> layer option list \<Rightarrow> error + time list" where
  "aggregate_times js ls =
     (case wms_with_times ls of
        Inl e \<Rightarrow> Inl e
      | Inr keep \<Rightarrow> Inr (sort_times js (remove_duplicates (concat_times keep))))"

text \<open>
  The body of \<^verbatim>\<open>state.contexts.forEach\<close>, context by context: the heap and the local
  array \<^verbatim>\<open>contextsTimes\<close> are threaded through. A throw ends the loop with the heap as
  the contexts before it left it.
\<close>

fun setContextsTimes_loop ::
  "builtins \<Rightarrow> ref list \<Rightarrow> heap \<Rightarrow> time option list \<Rightarrow> (error \<times> heap) + (heap \<times> time option list)"
where
  "setContextsTimes_loop js [] h cts = Inr (h, cts)"
| "setContextsTimes_loop js (c # cs) h cts =
     (case aggregate_times js (item_layers (h c)) of
        Inl e \<Rightarrow> Inl (e, h)
      | Inr ts \<Rightarrow>
          setContextsTimes_loop js cs
            (h(c := (h c)\<lparr>item_times := ts\<rparr>))
            (if ts \<noteq> [] then array_set cts (item_id (h c)) (last ts) else cts))"

definition setContextsTimes :: "builtins \<Rightarrow> state \<Rightarrow> result" where
  "setContextsTimes js s =
     (case setContextsTimes_loop js (contexts s) (heap s) [] of
        Inl (e, h) \<Rightarrow> Inl (e, s\<lparr>heap := h\<rparr>)
      | Inr (h, cts) \<Rightarrow> Inr (s\<lparr>heap := h, contextsTimes := cts\<rparr>))"

subsection \<open>Mutations (lines 45-149)\<close>

text \<open>
  Every mutation takes the state and its payload and gives the new state, or the error it
  throws. \<^verbatim>\<open>add_group\<close> and \<^verbatim>\<open>add_context\<close> are left out: they build their objects with
  the constructors of \<^verbatim>\<open>layersConfig\<close>, which are not among the sources.


  \<^verbatim>\<open>state.groups.findById(id)\<close>: \<^verbatim>\<open>state.groups\<close> is \<^verbatim>\<open>null\<close> before the first load, and the
  call on it throws; a search that does not return overflows the call stack.
\<close>

definition lookup :: "state \<Rightarrow> nat \<Rightarrow> error + ref option" where
  "lookup s i =
     (case groups s of
        None \<Rightarrow> Inl TypeError
      | Some g \<Rightarrow>
          (case findById (heap s) g i of
             None \<Rightarrow> Inl RangeError
           | Some found \<Rightarrow> Inr found))"

definition enable_edit :: "state \<Rightarrow> bool \<Rightarrow> result" where
  "enable_edit s e = Inr (s\<lparr>editing := e\<rparr>)"

definition edit_item :: "state \<Rightarrow> nat \<Rightarrow> result" where
  "edit_item s i =
     (case lookup s i of
        Inl e \<Rightarrow> Inl (e, s)
      | Inr (Some it) \<Rightarrow>
          if isGroup (heap s it) then Inr (s\<lparr>editGroup := Some it\<rparr>)
          else Inr (s\<lparr>editContext := Some it\<rparr>)
      | Inr None \<Rightarrow> Inr (s\<lparr>editGroup := None, editContext := None\<rparr>))"

text \<open>
  \<^verbatim>\<open>delete_item\<close>: \<^verbatim>\<open>item.parent\<close> throws when nothing was found,
  \<^verbatim>\<open>item.parent.items\<close> when the item has no parent, \<^verbatim>\<open>.findIndex\<close> when the parent has
  no \<^verbatim>\<open>items\<close>.
\<close>

definition delete_item :: "state \<Rightarrow> nat \<Rightarrow> result" where
  "delete_item s i =
     (case lookup s i of
        Inl e \<Rightarrow> Inl (e, s)
      | Inr None \<Rightarrow> Inl (TypeError, s)
      | Inr (Some it) \<Rightarrow>
          (case parent (heap s it) of
             None \<Rightarrow> Inl (TypeError, s)
           | Some p \<Rightarrow>
               (case items (heap s p) of
                  None \<Rightarrow> Inl (TypeError, s)
                | Some its \<Rightarrow>
                    (case findIndex (\<lambda>r. item_id (heap s r) = i) its of
                       None \<Rightarrow> Inr s
                     | Some index \<Rightarrow>
                         Inr (s\<lparr>heap := (heap s)(p := (heap s p)\<lparr>items := Some (splice_delete index its)\<rparr>)\<rparr>)))))"

definition edit_layers :: "state \<Rightarrow> bool \<Rightarrow> result" where
  "edit_layers s e = Inr (s\<lparr>editLayers := e\<rparr>)"

record save_group_payload =
  sg_id :: nat
  sg_label :: string
  sg_labels :: "(string \<times> string) list"
  sg_exclusive :: bool
  sg_infoFile :: "string option"

definition save_group :: "state \<Rightarrow> save_group_payload \<Rightarrow> result" where
  "save_group s p =
     (case lookup s (sg_id p) of
        Inl e \<Rightarrow> Inl (e, s)
      | Inr None \<Rightarrow> Inl (TypeError, s)
      | Inr (Some g) \<Rightarrow>
          Inr (s\<lparr>heap := (heap s)(g := (heap s g)
                 \<lparr>label := sg_label p, labels := sg_labels p,
                  exclusive := sg_exclusive p, infoFile := sg_infoFile p\<rparr>)\<rparr>))"

record save_context_payload =
  sc_id :: nat
  sc_label :: string
  sc_labels :: "(string \<times> string) list"
  sc_infoFile :: "string option"
  sc_active :: bool
  sc_inlineLegendUrl :: "string option"
  layerIds :: "nat list"

text \<open>
  \<^verbatim>\<open>layerIds.map(id => state.layers.find(layer => layer.id === id))\<close>: \<^verbatim>\<open>find\<close> gives
  \<^verbatim>\<open>undefined\<close> for an id that no layer of the catalog has, and \<^verbatim>\<open>map\<close> keeps it.
\<close>

definition resolve_layerIds :: "layer list \<Rightarrow> nat list \<Rightarrow> layer option list" where
  "resolve_layerIds catalog ids = map (\<lambda>i. find (\<lambda>l. layer_id l = i) catalog) ids"

definition save_context :: "builtins \<Rightarrow> state \<Rightarrow> save_context_payload \<Rightarrow> result" where
  "save_context js s p =
     (case lookup s (sc_id p) of
        Inl e \<Rightarrow> Inl (e, s)
      | Inr None \<Rightarrow> Inl (TypeError, s)
      | Inr (Some c) \<Rightarrow>
          setContextsTimes js
            (s\<lparr>heap := (heap s)(c := (heap s c)
                 \<lparr>label := sc_label p, labels := sc_labels p, infoFile := sc_infoFile p,
                  active := sc_active p, inlineLegendUrl := sc_inlineLegendUrl p,
                  item_layers := resolve_layerIds (layers s) (layerIds p)\<rparr>)\<rparr>))"



definition toggle_context :: "state \<Rightarrow> nat \<Rightarrow> result" where
  "toggle_context s contextId =
     (case find (\<lambda>c. item_id (heap s c) = contextId) (contexts s) of
        None \<Rightarrow> Inr s
      | Some c \<Rightarrow>
          (case indexOf (activeContextsIds s) contextId of
             None \<Rightarrow> Inr (s\<lparr>activeContextsIds := activeContextsIds s @ [contextId]\<rparr>)
           | Some idx \<Rightarrow>
               Inr (s\<lparr>activeContextsIds := splice_delete idx (activeContextsIds s)\<rparr>)))"

definition show_layer_info :: "state \<Rightarrow> string \<Rightarrow> string \<Rightarrow> result" where
  "show_layer_info s fileName lbl = Inr (s\<lparr>layerInfo := Some (fileName, lbl)\<rparr>)"

definition set_context_time :: "state \<Rightarrow> nat \<Rightarrow> time \<Rightarrow> result" where
  "set_context_time s contextId t =
     Inr (s\<lparr>contextsTimes := splice_replace contextId (Some t) (contextsTimes s)\<rparr>)"

definition overlay_kml :: "state \<Rightarrow> string option \<Rightarrow> result" where
  "overlay_kml s kml = Inr (s\<lparr>kmlOverlay := kml\<rparr>)"

definition enable_feedback :: "state \<Rightarrow> bool \<Rightarrow> result" where
  "enable_feedback s enable = Inr (s\<lparr>enableFeedback := enable\<rparr>)"

text \<open>
  \<^verbatim>\<open>update_group\<close>: the assignment is guarded by \<^verbatim>\<open>if (group)\<close>, the loop
  \<^verbatim>\<open>group.items.forEach\<close> after it is not, and throws when nothing was found. The loop
  writes the parent of every item of the new list, one after the other.
\<close>

definition stamp_parent :: "ref \<Rightarrow> ref list \<Rightarrow> heap \<Rightarrow> heap" where
  "stamp_parent g its h = foldl (\<lambda>h' it. h'(it := (h' it)\<lparr>parent := Some g\<rparr>)) h its"

definition update_group :: "state \<Rightarrow> nat \<Rightarrow> ref list \<Rightarrow> result" where
  "update_group s groupId val =
     (case lookup s groupId of
        Inl e \<Rightarrow> Inl (e, s)
      | Inr None \<Rightarrow> Inl (TypeError, s)
      | Inr (Some g) \<Rightarrow>
          (let h = (heap s)(g := (heap s g)\<lparr>items := Some val\<rparr>)
           in Inr (s\<lparr>heap := stamp_parent g val h\<rparr>)))"

text \<open>
  \<^verbatim>\<open>update_layers\<close>:
  \<^verbatim>\<open>contextLayers.map(layer => value.find(l => l.id === layer.id)).filter(l => !!l)\<close>.
  The callback of \<^verbatim>\<open>map\<close> reads \<^verbatim>\<open>layer.id\<close>, so an \<^verbatim>\<open>undefined\<close> entry throws.
\<close>

fun swap_layers :: "layer list \<Rightarrow> layer option list \<Rightarrow> error + layer option list" where
  "swap_layers val [] = Inr []"
| "swap_layers val (None # ls) = Inl TypeError"
| "swap_layers val (Some layer # ls) =
     (case swap_layers val ls of
        Inl e \<Rightarrow> Inl e
      | Inr found \<Rightarrow> Inr (find (\<lambda>l. layer_id l = layer_id layer) val # found))"

fun update_layers_loop :: "layer list \<Rightarrow> ref list \<Rightarrow> heap \<Rightarrow> (error \<times> heap) + heap" where
  "update_layers_loop val [] h = Inr h"
| "update_layers_loop val (c # cs) h =
     (case swap_layers val (item_layers (h c)) of
        Inl e \<Rightarrow> Inl (e, h)
      | Inr found \<Rightarrow>
          update_layers_loop val cs
            (h(c := (h c)\<lparr>item_layers := filter (\<lambda>l. l \<noteq> None) found\<rparr>)))"

definition update_layers :: "builtins \<Rightarrow> state \<Rightarrow> layer list \<Rightarrow> result" where
  "update_layers js s val =
     (case update_layers_loop val (contexts s) (heap s) of
        Inl (e, h) \<Rightarrow> Inl (e, s\<lparr>layers := val, heap := h\<rparr>)
      | Inr h \<Rightarrow> setContextsTimes js (s\<lparr>layers := val, heap := h\<rparr>))"

subsection \<open>Getters (lines 167-176)\<close>

text \<open>
  \<^verbatim>\<open>activeLayers\<close>: the layers of the contexts whose id is in \<^verbatim>\<open>activeContextsIds\<close>, then
  \<^verbatim>\<open>activeLayers.filter((elem, pos, arr) => arr.indexOf(elem) === pos)\<close>. \<^verbatim>\<open>indexOf\<close>
  compares the entries as objects; two entries are the same object when they are equal
  records, \<open>layer_ref\<close> included, and \<^verbatim>\<open>undefined\<close> is the same as \<^verbatim>\<open>undefined\<close>.
\<close>

definition activeLayers :: "state \<Rightarrow> layer option list" where
  "activeLayers s =
     (let arr = concat (map (\<lambda>c. item_layers (heap s c))
                  (filter (\<lambda>c. indexOf (activeContextsIds s) (item_id (heap s c)) \<noteq> None)
                     (contexts s)))
      in filter_pos (\<lambda>elem pos. indexOf arr elem = Some pos) arr)"

text \<open>
  \<^verbatim>\<open>queryableLayers\<close>: \<^verbatim>\<open>getters.activeLayers.filter(layer => layer.statistics)\<close>. The
  callback tests whether the property is truthy; an array is truthy, the empty one too.
\<close>

fun filter_statistics :: "layer option list \<Rightarrow> error + layer list" where
  "filter_statistics [] = Inr []"
| "filter_statistics (None # ls) = Inl TypeError"
| "filter_statistics (Some l # ls) =
     (case filter_statistics ls of
        Inl e \<Rightarrow> Inl e
      | Inr keep \<Rightarrow> Inr (if statistics l \<noteq> None then l # keep else keep))"

definition queryableLayers :: "state \<Rightarrow> error + layer list" where
  "queryableLayers s = filter_statistics (activeLayers s)"

subsection \<open>A small configuration\<close>

text \<open>
  A root group (id 10) holding two groups (ids 11 and 12); the first holds one context
  (id 13), which lists layer A. The catalog has the two \<^verbatim>\<open>wms\<close> layers A and B, whose
  times overlap in one instant; B has an empty \<^verbatim>\<open>statistics\<close> array, A has none.
\<close>

definition blank_item :: item where
  "blank_item = \<lparr>item_id = 0, isGroup = False, label = [], labels = [], infoFile = None,
     exclusive = False, active = False, inlineLegendUrl = None, item_layers = [],
     item_times = [], items = None, parent = None\<rparr>"

definition layer_A :: layer where
  "layer_A = \<lparr>layer_ref = 1, layer_id = 1, layer_type = ''wms'',
     layer_times = [\<lparr>iso8601 = ''2020-01-01''\<rparr>, \<lparr>iso8601 = ''2020-01-02''\<rparr>],
     statistics = None\<rparr>"

definition layer_B :: layer where
  "layer_B = \<lparr>layer_ref = 2, layer_id = 2, layer_type = ''wms'',
     layer_times = [\<lparr>iso8601 = ''2020-01-02''\<rparr>, \<lparr>iso8601 = ''2020-01-03''\<rparr>],
     statistics = Some []\<rparr>"

definition example_heap :: heap where
  "example_heap = (\<lambda>_. blank_item)
     (0 := blank_item\<lparr>item_id := 10, isGroup := True, items := Some [1, 2]\<rparr>,
      1 := blank_item\<lparr>item_id := 11, isGroup := True, items := Some [3], parent := Some 0\<rparr>,
      2 := blank_item\<lparr>item_id := 12, isGroup := True, items := Some [], parent := Some 0\<rparr>,
      3 := blank_item\<lparr>item_id := 13, item_layers := [Some layer_A], parent := Some 1\<rparr>)"

definition example_state :: state where
  "example_state = \<lparr>heap = example_heap, layers = [layer_A, layer_B], contexts = [3],
     groups = Some 0, layerInfo = None, contextsTimes = [], kmlOverlay = None,
     enableFeedback = False, activeContextsIds = [], editing = False, editGroup = None,
     editContext = None, editLayers = False\<rparr>"

text \<open>The same configuration with the context's parent reference pointing at the second
  group, which does not list it.\<close>

definition stale_state :: state where
  "stale_state = example_state\<lparr>heap := example_heap(3 := (example_heap 3)\<lparr>parent := Some 2\<rparr>)\<rparr>"

text \<open>The heap after the context was moved from the first group to the second.\<close>

definition moved_heap :: heap where
  "moved_heap = example_heap
     (1 := (example_heap 1)\<lparr>items := Some []\<rparr>,
      2 := (example_heap 2)\<lparr>items := Some [3]\<rparr>,
      3 := (example_heap 3)\<lparr>parent := Some 2\<rparr>)"


text \<open>
  A third layer C with one statistics descriptor, and a state with two active contexts:
  the first lists A, B and C, the second lists C.
\<close>

definition layer_C :: layer where
  "layer_C = \<lparr>layer_ref = 3, layer_id = 3, layer_type = ''wms'', layer_times = [],
     statistics = Some [UrlStatistics ''stats.json'']\<rparr>"

definition active_state :: state where
  "active_state = example_state
     \<lparr>heap := example_heap
        (3 := (example_heap 3)\<lparr>item_layers := [Some layer_A, Some layer_B, Some layer_C]\<rparr>,
         4 := blank_item\<lparr>item_id := 14, item_layers := [Some layer_C], parent := Some 2\<rparr>),
      layers := [layer_A, layer_B, layer_C], contexts := [3, 4],
      activeContextsIds := [13, 14]\<rparr>"

text \<open>A \<^verbatim>\<open>save_context\<close> payload for the context, with a layer id (99) that is not in
  the catalog.\<close>

definition unresolved_payload :: save_context_payload where
  "unresolved_payload = \<lparr>sc_id = 13, sc_label = ''Preset'', sc_labels = [], sc_infoFile = None,
     sc_active = True, sc_inlineLegendUrl = None, layerIds = [1, 99]\<rparr>"


text \<open>The configuration with a context that lists both layers, A and B.\<close>

definition two_layer_state :: state where
  "two_layer_state = example_state
     \<lparr>heap := example_heap(3 := (example_heap 3)\<lparr>item_layers := [Some layer_A, Some layer_B]\<rparr>)\<rparr>"






subsection \<open>The aggregation as the specification words it\<close>





subsection \<open>What the language promises of the sort\<close>


subsection \<open>An instance of the built-ins\<close>

text \<open>
  The examples run on this instance. Its \<^verbatim>\<open>Date.parse\<close> knows the date-only form: a
  calendar date \<^verbatim>\<open>YYYY-MM-DD\<close> parses to the milliseconds from the epoch to its midnight
  UTC (the days of the proleptic Gregorian calendar, counted in eras of 400 years), and
  every other string, such as \<^verbatim>\<open>2020-13-45\<close>, to \<^verbatim>\<open>NaN\<close>.
\<close>

definition digits_value :: "string \<Rightarrow> int" where
  "digits_value ds = foldl (\<lambda>n d. 10 * n + (int (of_char d) - 48)) 0 ds"

definition days_from_civil :: "int \<Rightarrow> int \<Rightarrow> int \<Rightarrow> int" where
  "days_from_civil y m d =
     (let y' = (if m \<le> 2 then y - 1 else y);
          era = y' div 400;
          yoe = y' - era * 400;
          doy = (153 * (if m > 2 then m - 3 else m + 9) + 2) div 5 + d - 1;
          doe = yoe * 365 + yoe div 4 - yoe div 100 + doy
      in era * 146097 + doe - 719468)"

definition days_in_month :: "int \<Rightarrow> int \<Rightarrow> int" where
  "days_in_month y m =
     (if m = 2 then (if y mod 4 = 0 \<and> (y mod 100 \<noteq> 0 \<or> y mod 400 = 0) then 29 else 28)
      else if m = 4 \<or> m = 6 \<or> m = 9 \<or> m = 11 then 30
      else 31)"

definition date_only_parse :: "string \<Rightarrow> int option" where
  "date_only_parse str =
     (if length str = 10 \<and> str ! 4 = CHR ''-'' \<and> str ! 7 = CHR ''-'' \<and>
         (\<forall>c\<in>set (take 4 str @ take 2 (drop 5 str) @ take 2 (drop 8 str)).
            c \<in> set ''0123456789'')
      then
        (let y = digits_value (take 4 str);
             m = digits_value (take 2 (drop 5 str));
             d = digits_value (take 2 (drop 8 str))
         in if 1 \<le> m \<and> m \<le> 12 \<and> 1 \<le> d \<and> d \<le> days_in_month y m
            then Some (days_from_civil y m d * 86400000)
            else None)
      else None)"

text \<open>
  Its sort is a straight insertion sort. A comparison that gives \<^verbatim>\<open>NaN\<close> counts as 0, as
  the language has it, so the element is put before the one it was compared with.
\<close>

fun insert_time :: "(time \<Rightarrow> time \<Rightarrow> int option) \<Rightarrow> time \<Rightarrow> time list \<Rightarrow> time list" where
  "insert_time cmp t [] = [t]"
| "insert_time cmp t (u # us) =
     (if (case cmp t u of None \<Rightarrow> True | Some d \<Rightarrow> d \<le> 0) then t # u # us
      else u # insert_time cmp t us)"

definition insertion_sort :: "(time \<Rightarrow> time \<Rightarrow> int option) \<Rightarrow> time list \<Rightarrow> time list" where
  "insertion_sort cmp ts = foldr (insert_time cmp) ts []"

definition example_builtins :: builtins where
  "example_builtins = \<lparr>Date_parse = date_only_parse, Array_sort = insertion_sort\<rparr>"

subsection \<open>Re-resolving layers against a catalog\<close>

text \<open>
  "Every Context's \<^verbatim>\<open>layers\<close> array is re-resolved against the new catalog (stale
  references silently dropped)": each layer is replaced by the catalog's layer of the same
  id, and a layer whose id the catalog does not have is left out.
\<close>

definition reresolve :: "layer list \<Rightarrow> layer list \<Rightarrow> layer list" where
  "reresolve catalog ls =
     List.map_filter (\<lambda>l. find (\<lambda>l'. layer_id l' = layer_id l) catalog) ls"

section \<open>The schema of the configuration document\<close>

text \<open>
  Modelled from the spec: the validator that checks a document against the schema is not
  among the sources; the repository holds the schema itself, a JSON Schema (draft-04)
  document. The spec: "validation failure is reported as a structured list of (path,
  reason) violations". Here a check gives the list of its violations, each the path of the
  offending value in the document and the keyword that failed, and a document is accepted
  when the list is empty. The keywords (\<^verbatim>\<open>type\<close>, \<^verbatim>\<open>enum\<close>, \<^verbatim>\<open>pattern\<close>, \<^verbatim>\<open>properties\<close>,
  \<^verbatim>\<open>required\<close>, \<^verbatim>\<open>additionalProperties\<close>, \<^verbatim>\<open>items\<close>, \<^verbatim>\<open>oneOf\<close>) check what draft-04
  gives them to check. A failed \<^verbatim>\<open>additionalProperties\<close> is reported at the member that is
  not declared, every other keyword at the value it was checked on.

  The schemas are transcribed from the schema document: each is the function that checks
  a JSON value against it, keyword by keyword, and a \<^verbatim>\<open>$ref\<close> is a call of the definition
  it names.
\<close>

subsection \<open>JSON values and violations\<close>

datatype json =
    JNull
  | JBoolean bool
  | JNumber rat
  | JString string
  | JArray "json list"
  | JObject "(string \<times> json) list"

datatype segment = Key string | Index nat

type_synonym path = "segment list"

type_synonym violation = "path \<times> string"

type_synonym schema = "path \<Rightarrow> json \<Rightarrow> violation list"

definition accepts :: "schema \<Rightarrow> json \<Rightarrow> bool" where
  "accepts sch doc \<longleftrightarrow> sch [] doc = []"

subsection \<open>Keywords\<close>

fun json_type :: "json \<Rightarrow> string" where
  "json_type JNull = ''null''"
| "json_type (JBoolean b) = ''boolean''"
| "json_type (JNumber n) = ''number''"
| "json_type (JString s) = ''string''"
| "json_type (JArray xs) = ''array''"
| "json_type (JObject m) = ''object''"

definition is_type :: "string \<Rightarrow> schema" where
  "is_type t p j = (if json_type j = t then [] else [(p, ''type'')])"

definition enum :: "json list \<Rightarrow> schema" where
  "enum allowed p j = (if j \<in> set allowed then [] else [(p, ''enum'')])"

text \<open>\<^verbatim>\<open>required\<close>, \<^verbatim>\<open>properties\<close> and \<^verbatim>\<open>additionalProperties\<close> constrain objects only,
  \<^verbatim>\<open>items\<close> arrays only, \<^verbatim>\<open>pattern\<close> strings only.\<close>

definition required :: "string list \<Rightarrow> schema" where
  "required names p j =
     (case j of
        JObject m \<Rightarrow> map (\<lambda>k. (p, ''required'')) (filter (\<lambda>k. k \<notin> fst ` set m) names)
      | _ \<Rightarrow> [])"

definition properties :: "(string \<times> schema) list \<Rightarrow> schema" where
  "properties props p j =
     (case j of
        JObject m \<Rightarrow>
          concat (map (\<lambda>(k, v). case map_of props k of
                                  None \<Rightarrow> []
                                | Some sch \<Rightarrow> sch (p @ [Key k]) v) m)
      | _ \<Rightarrow> [])"

text \<open>\<^verbatim>\<open>"additionalProperties": false\<close>, given the names that \<^verbatim>\<open>properties\<close> declares.\<close>

definition no_additional :: "string list \<Rightarrow> schema" where
  "no_additional names p j =
     (case j of
        JObject m \<Rightarrow>
          map (\<lambda>(k, v). (p @ [Key k], ''additionalProperties''))
            (filter (\<lambda>(k, v). k \<notin> set names) m)
      | _ \<Rightarrow> [])"

definition array_items :: "schema \<Rightarrow> schema" where
  "array_items sch p j =
     (case j of
        JArray xs \<Rightarrow> concat (map (\<lambda>(i, x). sch (p @ [Index i]) x) (enumerate 0 xs))
      | _ \<Rightarrow> [])"

definition one_of :: "schema list \<Rightarrow> schema" where
  "one_of alternatives p j =
     (if length (filter (\<lambda>alt. alt p j = []) alternatives) = 1 then []
      else [(p, ''oneOf'')])"

text \<open>A schema object with several keywords: all of them are checked.\<close>

definition all_keywords :: "schema list \<Rightarrow> schema" where
  "all_keywords parts p j = concat (map (\<lambda>sch. sch p j) parts)"

text \<open>\<^verbatim>\<open>properties\<close> together with \<^verbatim>\<open>required\<close> and \<^verbatim>\<open>"additionalProperties": false\<close>.\<close>

definition closed_properties :: "(string \<times> schema) list \<Rightarrow> string list \<Rightarrow> schema" where
  "closed_properties props names =
     all_keywords [properties props, required names, no_additional (map fst props)]"

subsection \<open>Patterns\<close>

text \<open>
  The regular expressions that the one \<^verbatim>\<open>pattern\<close> of the schema needs: a character of a
  set, concatenation, alternative, repetition, the empty word. \<open>matches\<close> decides whether
  the whole string is a word of the expression (the pattern is anchored by \<^verbatim>\<open>^\<close> and
  \<^verbatim>\<open>$\<close>), by taking the expression's residual after each character.
\<close>

datatype regex =
    Nothing
  | Empty
  | Chars "char list"
  | Then regex regex
  | Either regex regex
  | Many regex

fun has_empty :: "regex \<Rightarrow> bool" where
  "has_empty Nothing = False"
| "has_empty Empty = True"
| "has_empty (Chars cs) = False"
| "has_empty (Then r s) = (has_empty r \<and> has_empty s)"
| "has_empty (Either r s) = (has_empty r \<or> has_empty s)"
| "has_empty (Many r) = True"

fun residual :: "char \<Rightarrow> regex \<Rightarrow> regex" where
  "residual c Nothing = Nothing"
| "residual c Empty = Nothing"
| "residual c (Chars cs) = (if c \<in> set cs then Empty else Nothing)"
| "residual c (Then r s) =
     (if has_empty r then Either (Then (residual c r) s) (residual c s)
      else Then (residual c r) s)"
| "residual c (Either r s) = Either (residual c r) (residual c s)"
| "residual c (Many r) = Then (residual c r) (Many r)"

definition matches :: "regex \<Rightarrow> string \<Rightarrow> bool" where
  "matches r str = has_empty (foldl (\<lambda>r' c. residual c r') r str)"

definition pattern :: "regex \<Rightarrow> schema" where
  "pattern r p j =
     (case j of
        JString str \<Rightarrow> if matches r str then [] else [(p, ''pattern'')]
      | _ \<Rightarrow> [])"

definition optional :: "regex \<Rightarrow> regex" where
  "optional r = Either Empty r"

definition digit :: regex where
  "digit = Chars ''0123456789''"

definition digits2 :: regex where
  "digits2 = Then digit digit"

text \<open>
  \<^verbatim>\<open>^([0-9]{4})(-([0-9]{2})(-([0-9]{2})(T([0-9]{2}):([0-9]{2})(:([0-9]{2})(\.([0-9]+))?)?\<close>
  \<^verbatim>\<open>(Z|(([-+])([0-9]{2}):([0-9]{2})))?)?)?)?$\<close>
\<close>

definition time_pattern :: regex where
  "time_pattern =
     Then (Then digits2 digits2)
       (optional (Then (Chars ''-'') (Then digits2
          (optional (Then (Chars ''-'') (Then digits2
             (optional (Then (Chars ''T'') (Then digits2 (Then (Chars '':'') (Then digits2
                (Then
                   (optional (Then (Chars '':'') (Then digits2
                      (optional (Then (Chars ''.'') (Then digit (Many digit)))))))
                   (optional (Either (Chars ''Z'')
                      (Then (Chars ''-+'') (Then digits2 (Then (Chars '':'') digits2)))))))))))))))))"

subsection \<open>The definitions of the schema (lines 67-259)\<close>

definition labels_schema :: schema where
  "labels_schema =
     all_keywords [is_type ''array'',
       array_items (closed_properties
         [(''language'', is_type ''string''), (''label'', is_type ''string'')]
         [''language'', ''label''])]"

definition wmsLegend :: schema where
  "wmsLegend =
     closed_properties [(''type'', enum [JString ''wms'']), (''style'', is_type ''string'')]
       [''type'', ''style'']"

definition urlLegend :: schema where
  "urlLegend =
     closed_properties [(''type'', enum [JString ''url'']), (''url'', is_type ''string'')]
       [''type'', ''url'']"

definition attributesStatistics :: schema where
  "attributesStatistics =
     all_keywords [is_type ''object'',
       closed_properties
         [(''type'', enum [JString ''attributes'']),
          (''labels'', labels_schema),
          (''attributes'', all_keywords [is_type ''array'',
             array_items (closed_properties
               [(''labels'', labels_schema), (''attribute'', is_type ''string'')]
               [''labels'', ''attribute''])])]
         [''type'']]"

definition urlStatistics :: schema where
  "urlStatistics =
     all_keywords [is_type ''object'',
       closed_properties
         [(''type'', enum [JString ''url'']),
          (''labels'', labels_schema),
          (''url'', is_type ''string'')]
         [''type'', ''url'']]"

definition wms :: schema where
  "wms =
     all_keywords [is_type ''object'',
       closed_properties
         [(''type'', enum [JString ''wms'']),
          (''id'', is_type ''number''),
          (''serverUrls'', all_keywords [is_type ''array'', array_items (is_type ''string'')]),
          (''name'', is_type ''string''),
          (''imageFormat'', is_type ''string''),
          (''legend'', all_keywords [is_type ''object'', one_of [wmsLegend, urlLegend]]),
          (''sourceLink'', is_type ''string''),
          (''sourceLabel'', is_type ''string''),
          (''times'', all_keywords [is_type ''array'',
             array_items (all_keywords [is_type ''string'', pattern time_pattern])]),
          (''styles'', labels_schema),
          (''visible'', is_type ''boolean''),
          (''statistics'', all_keywords [is_type ''array'',
             array_items (one_of [attributesStatistics, urlStatistics])])]
         [''id'', ''name'', ''serverUrls'']]"

definition bingAerial :: schema where
  "bingAerial =
     all_keywords [is_type ''object'',
       closed_properties
         [(''type'', enum [JString ''bing-aerial'']),
          (''id'', is_type ''number''),
          (''visible'', is_type ''boolean'')]
         [''type'', ''id'']]"

definition osm :: schema where
  "osm =
     all_keywords [is_type ''object'',
       closed_properties
         [(''type'', enum [JString ''osm'']),
          (''id'', is_type ''number''),
          (''visible'', is_type ''boolean'')]
         [''type'', ''id'']]"

definition context_ref :: schema where
  "context_ref =
     all_keywords [is_type ''object'',
       closed_properties [(''context'', is_type ''number'')] [''context'']]"

text \<open>
  The definitions \<^verbatim>\<open>items\<close> and \<^verbatim>\<open>group\<close> refer to each other; they are one recursion
  over the document. \<open>items_from\<close> checks the entries of an \<^verbatim>\<open>items\<close> array from an index
  on, each against \<^verbatim>\<open>{"type": "object", "oneOf": [group, context]}\<close>; \<open>group_members\<close> and
  \<open>group_body_members\<close> check the declared members of a \<^verbatim>\<open>{"group": ...}\<close> wrapper and of
  the group inside it.
\<close>

fun items_schema :: schema
  and items_from :: "nat \<Rightarrow> path \<Rightarrow> json list \<Rightarrow> violation list"
  and group_ref :: schema
  and group_members :: "path \<Rightarrow> (string \<times> json) list \<Rightarrow> violation list"
  and group_body :: schema
  and group_body_members :: "path \<Rightarrow> (string \<times> json) list \<Rightarrow> violation list"
where
  "items_schema p (JArray xs) = items_from 0 p xs"
| "items_schema p j = [(p, ''type'')]"
| "items_from i p [] = []"
| "items_from i p (x # xs) =
     (is_type ''object'' (p @ [Index i]) x
      @ (if length (filter (\<lambda>r. r = [])
                [group_ref (p @ [Index i]) x, context_ref (p @ [Index i]) x]) = 1
         then [] else [(p @ [Index i], ''oneOf'')]))
     @ items_from (Suc i) p xs"
| "group_ref p (JObject m) =
     group_members p m @ required [''group''] p (JObject m)
     @ no_additional [''group''] p (JObject m)"
| "group_ref p j = [(p, ''type'')]"
| "group_members p [] = []"
| "group_members p ((k, v) # m) =
     (if k = ''group'' then group_body (p @ [Key k]) v else []) @ group_members p m"
| "group_body p (JObject m) =
     group_body_members p m @ required [''labels''] p (JObject m)
     @ no_additional [''labels'', ''infoFile'', ''exclusive'', ''items''] p (JObject m)"
| "group_body p j = [(p, ''type'')]"
| "group_body_members p [] = []"
| "group_body_members p ((k, v) # m) =
     (if k = ''labels'' then labels_schema (p @ [Key k]) v
      else if k = ''infoFile'' then is_type ''string'' (p @ [Key k]) v
      else if k = ''exclusive'' then is_type ''boolean'' (p @ [Key k]) v
      else if k = ''items'' then items_schema (p @ [Key k]) v
      else [])
     @ group_body_members p m"

subsection \<open>The schema of the document (lines 3-66)\<close>

definition context_schema :: schema where
  "context_schema =
     all_keywords [is_type ''object'',
       closed_properties
         [(''id'', is_type ''number''),
          (''infoFile'', is_type ''string''),
          (''labels'', labels_schema),
          (''inlineLegendUrl'', is_type ''string''),
          (''downloadUrl'', is_type ''string''),
          (''layers'', all_keywords [is_type ''array'', array_items (is_type ''number'')]),
          (''active'', is_type ''boolean'')]
         [''id'']]"

definition config_schema :: schema where
  "config_schema =
     all_keywords [is_type ''object'',
       closed_properties
         [(''$schema'', is_type ''string''),
          (''layers'', all_keywords [is_type ''array'', array_items (one_of [wms, bingAerial, osm])]),
          (''contexts'', all_keywords [is_type ''array'', array_items context_schema]),
          (''group'', all_keywords [is_type ''object'',
             closed_properties
               [(''items'', items_schema), (''exclusive'', is_type ''boolean'')] []])]
         [''layers'', ''contexts'', ''group'']]"

subsection \<open>Three documents\<close>

text \<open>
  A document the schema accepts; one with a top-level member \<^verbatim>\<open>title\<close> that the schema
  does not declare; one whose second layer has neither a \<^verbatim>\<open>type\<close> nor \<^verbatim>\<open>serverUrls\<close>.
\<close>

definition example_document :: json where
  "example_document = JObject
     [(''$schema'', JString ''layers-schema.json''),
      (''layers'', JArray
         [JObject [(''id'', JNumber 1), (''name'', JString ''forest''),
                   (''serverUrls'', JArray [JString ''http://maps/wms'']),
                   (''times'', JArray [JString ''2020-01-01'', JString ''2020-01-02T10:30:00Z'']),
                   (''statistics'', JArray [])],
          JObject [(''type'', JString ''osm''), (''id'', JNumber 2)]]),
      (''contexts'', JArray
         [JObject [(''id'', JNumber 13), (''layers'', JArray [JNumber 1]),
                   (''active'', JBoolean True)]]),
      (''group'', JObject
         [(''items'', JArray
            [JObject [(''group'', JObject
               [(''labels'', JArray
                   [JObject [(''language'', JString ''en''), (''label'', JString ''Base'')]]),
                (''items'', JArray [JObject [(''context'', JNumber 13)]])])]])])]"

definition unknown_key_members :: "(string \<times> json) list" where
  "unknown_key_members =
     [(''layers'', JArray []), (''contexts'', JArray []), (''group'', JObject []),
      (''title'', JString ''portal'')]"

definition incomplete_layer :: "(string \<times> json) list" where
  "incomplete_layer = [(''id'', JNumber 1), (''name'', JString ''forest'')]"

definition incomplete_layer_members :: "(string \<times> json) list" where
  "incomplete_layer_members =
     [(''layers'', JArray
         [JObject [(''type'', JString ''osm''), (''id'', JNumber 2)], JObject incomplete_layer]),
      (''contexts'', JArray []), (''group'', JObject [])]"

section \<open>Properties of the store\<close>

subsection \<open>Evaluating the tree lookup\<close>

lemma findById_from_Nil: "findById_from h [] i = Some None"
  by (subst findById_from.simps) simp

lemma findById_from_Cons:
  "findById_from h (r # rest) i =
     (if item_id (h r) = i then Some (Some r) else findById_from h (children (h r) @ rest) i)"
  by (subst findById_from.simps) simp

lemmas example_defs = example_state_def example_heap_def blank_item_def layer_A_def layer_B_def

lemmas lookup_eval = lookup_def findById_def findById_from_Cons findById_from_Nil children_def

subsection \<open>Array methods\<close>

lemma findIndex_None: "findIndex p xs = None \<longleftrightarrow> (\<forall>x\<in>set xs. \<not> p x)"
  by (induction xs) auto


lemma indexOf_None: "indexOf xs v = None \<longleftrightarrow> v \<notin> set xs"
  by (auto simp: indexOf_def findIndex_None)

lemma indexOf_splice_delete: "indexOf xs v = Some k \<Longrightarrow> splice_delete k xs = remove1 v xs"
proof (induction xs arbitrary: k)
  case Nil
  then show ?case by (simp add: indexOf_def)
next
  case (Cons x xs)
  show ?case
  proof (cases "x = v")
    case True
    with Cons.prems show ?thesis by (simp add: indexOf_def splice_delete_def)
  next
    case False
    with Cons.prems obtain k' where k': "indexOf xs v = Some k'" "k = Suc k'"
      by (auto simp: indexOf_def)
    from Cons.IH [OF k'(1)] False k'(2) show ?thesis
      by (simp add: splice_delete_def)
  qed
qed

subsection \<open>The aggregation refines its specification\<close>











lemma wms_with_times_Inl: "wms_with_times xs = Inl e \<Longrightarrow> e = TypeError \<and> None \<in> set xs"
  by (induction xs arbitrary: e rule: wms_with_times.induct) (auto split: sum.splits)



lemma aggregate_times_Inl:
  "aggregate_times js xs = Inl e \<Longrightarrow> e = TypeError \<and> None \<in> set xs"
  by (auto simp: aggregate_times_def split: sum.splits dest: wms_with_times_Inl)





subsection \<open>Sorting with a conforming sort\<close>





subsection \<open>The instance of the built-ins conforms\<close>








subsection \<open>The loop over the contexts\<close>


lemma setContextsTimes_loop_frame:
  "setContextsTimes_loop js cs h cts = Inr (h', cts') \<Longrightarrow>
   h' r = (h r)\<lparr>item_times := item_times (h' r)\<rparr>"
proof (induction cs arbitrary: h cts)
  case Nil
  then show ?case by simp
next
  case (Cons c cs)
  from Cons.prems obtain ts where ts: "aggregate_times js (item_layers (h c)) = Inr ts"
    by (auto split: sum.splits)
  let ?h1 = "h(c := (h c)\<lparr>item_times := ts\<rparr>)"
  from Cons.prems ts obtain cts1 where "setContextsTimes_loop js cs ?h1 cts1 = Inr (h', cts')"
    by simp
  from Cons.IH [OF this] have "h' r = (?h1 r)\<lparr>item_times := item_times (h' r)\<rparr>" .
  then show ?case by (cases "r = c") simp_all
qed



lemma setContextsTimes_loop_total:
  "\<forall>c\<in>set cs. None \<notin> set (item_layers (h c)) \<Longrightarrow>
   \<exists>h' cts'. setContextsTimes_loop js cs h cts = Inr (h', cts')"
proof (induction cs arbitrary: h cts)
  case Nil
  show ?case by simp
next
  case (Cons c cs)
  from Cons.prems have "None \<notin> set (item_layers (h c))" by simp
  then obtain ts where ts: "aggregate_times js (item_layers (h c)) = Inr ts"
    by (cases "aggregate_times js (item_layers (h c))") (auto dest: aggregate_times_Inl)
  let ?h1 = "h(c := (h c)\<lparr>item_times := ts\<rparr>)"
  let ?cts1 = "if ts \<noteq> [] then array_set cts (item_id (h c)) (last ts) else cts"
  have "\<forall>d\<in>set cs. None \<notin> set (item_layers (?h1 d))"
    using Cons.prems by simp
  from Cons.IH [of ?h1 ?cts1, OF this]
  obtain h' cts' where "setContextsTimes_loop js cs ?h1 ?cts1 = Inr (h', cts')"
    by blast
  with ts show ?case by simp
qed


subsection \<open>\<^verbatim>\<open>setContextsTimes\<close> as a whole\<close>

lemma setContextsTimes_Inr:
  assumes "setContextsTimes js s = Inr s'"
  obtains h' cts' where "setContextsTimes_loop js (contexts s) (heap s) [] = Inr (h', cts')"
    and "s' = s\<lparr>heap := h', contextsTimes := cts'\<rparr>"
  using assms by (auto simp: setContextsTimes_def split: sum.splits prod.splits)

lemma setContextsTimes_total:
  assumes "\<forall>c\<in>set (contexts s). None \<notin> set (item_layers (heap s c))"
  shows "\<exists>s'. setContextsTimes js s = Inr s'"
proof -
  from setContextsTimes_loop_total [OF assms, of js "[]"]
  obtain h' cts' where "setContextsTimes_loop js (contexts s) (heap s) [] = Inr (h', cts')"
    by blast
  then show ?thesis by (simp add: setContextsTimes_def)
qed


lemma setContextsTimes_frame:
  assumes "setContextsTimes js s = Inr s'"
  shows "heap s' r = (heap s r)\<lparr>item_times := item_times (heap s' r)\<rparr>"
    and "s' = s\<lparr>heap := heap s', contextsTimes := contextsTimes s'\<rparr>"
proof -
  from assms obtain h' cts'
    where l: "setContextsTimes_loop js (contexts s) (heap s) [] = Inr (h', cts')"
      and s': "s' = s\<lparr>heap := h', contextsTimes := cts'\<rparr>"
    by (rule setContextsTimes_Inr)
  from setContextsTimes_loop_frame [OF l, of r] s'
  show "heap s' r = (heap s r)\<lparr>item_times := item_times (heap s' r)\<rparr>"
    by simp
  from s' show "s' = s\<lparr>heap := heap s', contextsTimes := contextsTimes s'\<rparr>"
    by simp
qed

lemma setContextsTimes_fields:
  assumes "setContextsTimes js s = Inr s'"
  shows "layers s' = layers s" and "contexts s' = contexts s" and "groups s' = groups s"
    and "activeContextsIds s' = activeContextsIds s"
    and "item_layers (heap s' r) = item_layers (heap s r)"
    and "item_id (heap s' r) = item_id (heap s r)"
proof -
  note f = setContextsTimes_frame [OF assms]
  from arg_cong [OF f(2), of layers] show "layers s' = layers s" by simp
  from arg_cong [OF f(2), of contexts] show "contexts s' = contexts s" by simp
  from arg_cong [OF f(2), of groups] show "groups s' = groups s" by simp
  from arg_cong [OF f(2), of activeContextsIds] show "activeContextsIds s' = activeContextsIds s"
    by simp
  from arg_cong [OF f(1), of item_layers] show "item_layers (heap s' r) = item_layers (heap s r)"
    by simp
  from arg_cong [OF f(1), of item_id] show "item_id (heap s' r) = item_id (heap s r)"
    by simp
qed







subsection \<open>Replacing the layer catalog\<close>

lemma swap_layers_Some:
  "swap_layers L (map Some ls) = Inr (map (\<lambda>l. find (\<lambda>l'. layer_id l' = layer_id l) L) ls)"
  by (induction ls) auto

lemma swap_layers_Inr: "swap_layers L xs = Inr found \<Longrightarrow> xs = map Some (map the xs)"
  by (induction L xs arbitrary: found rule: swap_layers.induct) (auto split: sum.splits)

lemma swap_layers_Inl: "swap_layers L xs = Inl e \<Longrightarrow> e = TypeError \<and> None \<in> set xs"
  by (induction L xs arbitrary: e rule: swap_layers.induct) (auto split: sum.splits)

lemma filter_found_reresolve:
  "filter (\<lambda>l. l \<noteq> None) (map (\<lambda>l. find (\<lambda>l'. layer_id l' = layer_id l) L) ls)
     = map Some (reresolve L ls)"
  by (induction ls) (auto simp: reresolve_def split: option.splits)

lemma reresolve_Nil: "reresolve L [] = []"
  by (simp add: reresolve_def)

lemma reresolve_Cons:
  "reresolve L (l # ls) =
     (case find (\<lambda>l'. layer_id l' = layer_id l) L of
        None \<Rightarrow> reresolve L ls
      | Some l' \<Rightarrow> l' # reresolve L ls)"
  by (simp add: reresolve_def split: option.splits)

lemma find_layer_id: "find (\<lambda>l'. layer_id l' = i) L = Some l \<Longrightarrow> l \<in> set L \<and> layer_id l = i"
  by (auto simp: find_Some_iff)

lemma find_layer_None: "find (\<lambda>l'. layer_id l' = i) L = None \<longleftrightarrow> i \<notin> layer_id ` set L"
  by (auto simp: find_None_iff)

lemma reresolve_subset: "set (reresolve L ls) \<subseteq> set L"
  by (induction ls) (auto simp: reresolve_Nil reresolve_Cons split: option.splits dest: find_layer_id)

lemma reresolve_ids:
  "map layer_id (reresolve L ls) = filter (\<lambda>i. i \<in> layer_id ` set L) (map layer_id ls)"
proof (induction ls)
  case Nil
  show ?case by (simp add: reresolve_Nil)
next
  case (Cons l ls)
  show ?case
  proof (cases "find (\<lambda>l'. layer_id l' = layer_id l) L")
    case None
    then have "layer_id l \<notin> layer_id ` set L"
      by (simp add: find_layer_None)
    with None Cons show ?thesis by (simp add: reresolve_Cons)
  next
    case (Some l')
    from find_layer_id [OF Some] have l': "l' \<in> set L" "layer_id l' = layer_id l"
      by auto
    then have "layer_id l \<in> layer_id ` set L"
      by (metis imageI)
    with l' Some Cons show ?thesis by (simp add: reresolve_Cons)
  qed
qed

lemma reresolve_idem: "reresolve L (reresolve L ls) = reresolve L ls"
proof (induction ls)
  case Nil
  show ?case by (simp add: reresolve_Nil)
next
  case (Cons l ls)
  show ?case
  proof (cases "find (\<lambda>l'. layer_id l' = layer_id l) L")
    case None
    with Cons show ?thesis by (simp add: reresolve_Cons)
  next
    case (Some l')
    from find_layer_id [OF Some] have "layer_id l' = layer_id l" by simp
    with Some Cons show ?thesis by (simp add: reresolve_Cons)
  qed
qed

lemma update_layers_loop_apply:
  "update_layers_loop L cs h = Inr h' \<Longrightarrow>
   h' r = (if r \<in> set cs
           then (h r)\<lparr>item_layers := map Some (reresolve L (map the (item_layers (h r))))\<rparr>
           else h r)"
proof (induction cs arbitrary: h)
  case Nil
  then show ?case by simp
next
  case (Cons c cs)
  from Cons.prems obtain found where f: "swap_layers L (item_layers (h c)) = Inr found"
    by (auto split: sum.splits)
  from swap_layers_Inr [OF f] have m: "item_layers (h c) = map Some (map the (item_layers (h c)))" .
  from f swap_layers_Some [of L "map the (item_layers (h c))"] m
  have found: "found = map (\<lambda>l. find (\<lambda>l'. layer_id l' = layer_id l) L) (map the (item_layers (h c)))"
    by simp
  let ?new = "map Some (reresolve L (map the (item_layers (h c))))"
  let ?h1 = "h(c := (h c)\<lparr>item_layers := ?new\<rparr>)"
  have "filter (\<lambda>l. l \<noteq> None) found = ?new"
    unfolding found by (rule filter_found_reresolve)
  with Cons.prems f have l: "update_layers_loop L cs ?h1 = Inr h'"
    by simp
  note IH = Cons.IH [OF l]
  show ?case
  proof (cases "r = c")
    case True
    have "map the ?new = reresolve L (map the (item_layers (h c)))"
      by (simp add: comp_def)
    with IH True show ?thesis
      by (simp add: reresolve_idem)
  next
    case False
    with IH show ?thesis by simp
  qed
qed

lemma update_layers_loop_total:
  "\<forall>c\<in>set cs. None \<notin> set (item_layers (h c)) \<Longrightarrow> \<exists>h'. update_layers_loop L cs h = Inr h'"
proof (induction cs arbitrary: h)
  case Nil
  show ?case by simp
next
  case (Cons c cs)
  from Cons.prems have "None \<notin> set (item_layers (h c))" by simp
  then obtain found where f: "swap_layers L (item_layers (h c)) = Inr found"
    by (cases "swap_layers L (item_layers (h c))") (auto dest: swap_layers_Inl)
  let ?h1 = "h(c := (h c)\<lparr>item_layers := filter (\<lambda>l. l \<noteq> None) found\<rparr>)"
  have "\<forall>d\<in>set cs. None \<notin> set (item_layers (?h1 d))"
    using Cons.prems by simp
  from Cons.IH [of ?h1, OF this] obtain h' where "update_layers_loop L cs ?h1 = Inr h'"
    by blast
  with f show ?case by simp
qed

lemma update_layers_loop_defined:
  "update_layers_loop L cs h = Inr h' \<Longrightarrow> c \<in> set cs \<Longrightarrow> None \<notin> set (item_layers (h c))"
proof (induction cs arbitrary: h)
  case Nil
  then show ?case by simp
next
  case (Cons d cs)
  from Cons.prems obtain found where f: "swap_layers L (item_layers (h d)) = Inr found"
    by (auto split: sum.splits)
  from swap_layers_Inr [OF f] have m: "item_layers (h d) = map Some (map the (item_layers (h d)))" .
  have d: "None \<notin> set (item_layers (h d))"
    by (subst m) auto
  let ?h1 = "h(d := (h d)\<lparr>item_layers := filter (\<lambda>l. l \<noteq> None) found\<rparr>)"
  from Cons.prems f have l: "update_layers_loop L cs ?h1 = Inr h'"
    by simp
  show ?case
  proof (cases "c = d")
    case True
    with d show ?thesis by simp
  next
    case False
    with Cons.prems(2) have "c \<in> set cs" by simp
    from Cons.IH [OF l this] False show ?thesis by simp
  qed
qed

lemma map_Some_the: "None \<notin> set xs \<Longrightarrow> map Some (map the xs) = xs"
  by (induction xs) auto

lemma update_layers_Inr:
  assumes "update_layers js s L = Inr s'"
  obtains h where "update_layers_loop L (contexts s) (heap s) = Inr h"
    and "setContextsTimes js (s\<lparr>layers := L, heap := h\<rparr>) = Inr s'"
  using assms by (auto simp: update_layers_def split: sum.splits prod.splits)

lemma update_layers_total:
  assumes "\<forall>c\<in>set (contexts s). None \<notin> set (item_layers (heap s c))"
  shows "\<exists>s'. update_layers js s L = Inr s'"
proof -
  from update_layers_loop_total [OF assms, of L]
  obtain h where h: "update_layers_loop L (contexts s) (heap s) = Inr h"
    by blast
  let ?s1 = "s\<lparr>layers := L, heap := h\<rparr>"
  have "\<forall>c\<in>set (contexts ?s1). None \<notin> set (item_layers (heap ?s1 c))"
    using update_layers_loop_apply [OF h] by auto
  from setContextsTimes_total [OF this, of js] h show ?thesis
    by (simp add: update_layers_def)
qed

lemma update_layers_result:
  assumes "update_layers js s L = Inr s'"
  shows "layers s' = L" and "contexts s' = contexts s"
    and "c \<in> set (contexts s) \<Longrightarrow>
         item_layers (heap s' c) = map Some (reresolve L (map the (item_layers (heap s c))))"
    and "c \<in> set (contexts s) \<Longrightarrow>
         item_layers (heap s c) = map Some (map the (item_layers (heap s c)))"
    and "item_id (heap s' r) = item_id (heap s r)"
proof -
  from assms obtain h where h: "update_layers_loop L (contexts s) (heap s) = Inr h"
    and t: "setContextsTimes js (s\<lparr>layers := L, heap := h\<rparr>) = Inr s'"
    by (rule update_layers_Inr)
  note f = setContextsTimes_fields [OF t]
  from f(1) show "layers s' = L" by simp
  from f(2) show "contexts s' = contexts s" by simp
  from f(6) [of r] update_layers_loop_apply [OF h, of r]
  show "item_id (heap s' r) = item_id (heap s r)" by simp
  show "item_layers (heap s' c) = map Some (reresolve L (map the (item_layers (heap s c))))"
    if "c \<in> set (contexts s)"
    using f(5) [of c] update_layers_loop_apply [OF h, of c] that by simp
  show "item_layers (heap s c) = map Some (map the (item_layers (heap s c)))"
    if "c \<in> set (contexts s)"
    using map_Some_the [OF update_layers_loop_defined [OF h that]] by simp
qed



subsection \<open>Selecting a node for editing\<close>

text \<open>
  Claim C10. An \<^verbatim>\<open>edit_item\<close> whose id resolves writes only the editing reference of the
  node's kind: a Group sets \<open>editGroup\<close> and leaves the rest of the state, \<open>editContext\<close>
  included, as it was; a Context sets \<open>editContext\<close> and leaves \<open>editGroup\<close>. After
  selecting a Group and then a Context both references are set. An id that does not
  resolve clears both, and only such an id does: when a reference was set before and
  both are clear after, the id did not resolve.
\<close>

theorem edit_item_sets_matching_reference:
  "(lookup s i = Inr (Some it) \<longrightarrow>
      edit_item s i = Inr (if isGroup (heap s it) then s\<lparr>editGroup := Some it\<rparr>
                           else s\<lparr>editContext := Some it\<rparr>))
   \<and> (lookup s i = Inr (Some g) \<and> isGroup (heap s g) \<and>
      lookup s j = Inr (Some c) \<and> \<not> isGroup (heap s c) \<longrightarrow>
      (\<exists>s1 s2. edit_item s i = Inr s1 \<and> edit_item s1 j = Inr s2 \<and>
         editGroup s2 = Some g \<and> editContext s2 = Some c))
   \<and> (lookup s i = Inr None \<longrightarrow>
      edit_item s i = Inr (s\<lparr>editGroup := None, editContext := None\<rparr>))
   \<and> (edit_item s i = Inr s' \<and> editGroup s' = None \<and> editContext s' = None \<and>
      (editGroup s \<noteq> None \<or> editContext s \<noteq> None) \<longrightarrow> lookup s i = Inr None)"
proof -
  have frame: "lookup (s\<lparr>editGroup := x\<rparr>) k = lookup s k" for x k
    by (simp add: lookup_def split: option.splits)
  have a: "lookup s i = Inr (Some it) \<Longrightarrow>
      edit_item s i = Inr (if isGroup (heap s it) then s\<lparr>editGroup := Some it\<rparr>
                           else s\<lparr>editContext := Some it\<rparr>)" for it
    by (simp add: edit_item_def)
  have b: "\<exists>s1 s2. edit_item s i = Inr s1 \<and> edit_item s1 j = Inr s2 \<and>
         editGroup s2 = Some g \<and> editContext s2 = Some c"
    if "lookup s i = Inr (Some g)" "isGroup (heap s g)"
       "lookup s j = Inr (Some c)" "\<not> isGroup (heap s c)"
    using that by (simp add: edit_item_def frame)
  have c: "lookup s i = Inr None \<Longrightarrow>
      edit_item s i = Inr (s\<lparr>editGroup := None, editContext := None\<rparr>)"
    by (simp add: edit_item_def)
  have d: "lookup s i = Inr None"
    if "edit_item s i = Inr s'" "editGroup s' = None" "editContext s' = None"
       "editGroup s \<noteq> None \<or> editContext s \<noteq> None"
    using that by (auto simp: edit_item_def split: sum.splits option.splits if_splits)
  show ?thesis using a b c d by blast
qed

theorem edit_item_sets_matching_reference_witness:
  "lookup example_state 11 = Inr (Some 1) \<and> isGroup (heap example_state 1) \<and>
   lookup example_state 13 = Inr (Some 3) \<and> \<not> isGroup (heap example_state 3) \<and>
   edit_item example_state 11 = Inr (example_state\<lparr>editGroup := Some 1\<rparr>) \<and>
   (\<exists>s1 s2. edit_item example_state 11 = Inr s1 \<and> edit_item s1 13 = Inr s2 \<and>
      editGroup s2 = Some 1 \<and> editContext s2 = Some 3) \<and>
   lookup example_state 99 = Inr None \<and>
   edit_item example_state 99 = Inr (example_state\<lparr>editGroup := None, editContext := None\<rparr>)"
proof -
  have l1: "lookup example_state 11 = Inr (Some 1)"
    by (simp add: lookup_eval example_defs)
  have l3: "lookup example_state 99 = Inr None"
    by (simp add: lookup_eval example_defs)
  have l4: "lookup example_state 13 = Inr (Some 3)"
    by (simp add: lookup_eval example_defs)
  have g1: "isGroup (heap example_state 1)"
    by (simp add: example_defs)
  have g3: "\<not> isGroup (heap example_state 3)"
    by (simp add: example_defs)
  note t1 = edit_item_sets_matching_reference [of example_state 11 1 1 13 3]
  note t2 = edit_item_sets_matching_reference [of example_state 99]
  from t1 l1 g1
  have e1: "edit_item example_state 11 = Inr (example_state\<lparr>editGroup := Some 1\<rparr>)"
    by simp
  from t1 l1 l4 g1 g3
  have e2: "\<exists>s1 s2. edit_item example_state 11 = Inr s1 \<and> edit_item s1 13 = Inr s2 \<and>
      editGroup s2 = Some 1 \<and> editContext s2 = Some 3"
    by blast
  from t2 l3
  have e3: "edit_item example_state 99 =
      Inr (example_state\<lparr>editGroup := None, editContext := None\<rparr>)"
    by blast
  from l1 l3 l4 g1 g3 e1 e2 e3 show ?thesis by blast
qed

subsection \<open>Toggling an active context\<close>

lemma toggle_context_absent:
  assumes "find (\<lambda>c. item_id (heap s c) = cid) (contexts s) = Some c"
    and "cid \<notin> set (activeContextsIds s)"
  shows "toggle_context s cid = Inr (s\<lparr>activeContextsIds := activeContextsIds s @ [cid]\<rparr>)"
  using assms indexOf_None [of "activeContextsIds s" cid] by (simp add: toggle_context_def)

lemma toggle_context_present:
  assumes "find (\<lambda>c. item_id (heap s c) = cid) (contexts s) = Some c"
    and "cid \<in> set (activeContextsIds s)"
  shows "toggle_context s cid = Inr (s\<lparr>activeContextsIds := remove1 cid (activeContextsIds s)\<rparr>)"
proof -
  from assms(2) obtain k where k: "indexOf (activeContextsIds s) cid = Some k"
    using indexOf_None [of "activeContextsIds s" cid] by auto
  with assms(1) show ?thesis
    by (simp add: toggle_context_def indexOf_splice_delete)
qed

text \<open>
  Claim C6. For a context id that resolves to a context of the flat list, one
  \<^verbatim>\<open>toggle_context\<close> adds the id to \<open>activeContextsIds\<close> when it is absent and
  removes it when it is present, writing nothing else; two toggles with the same id give
  back the membership there was, as a set. \<open>activeContextsIds\<close> is a set of ids kept in
  an array: it holds no id twice, and a toggle keeps it so.
\<close>

theorem toggle_context_flips_membership:
  assumes "find (\<lambda>c. item_id (heap s c) = cid) (contexts s) = Some c"
    and "distinct (activeContextsIds s)"
  shows "\<exists>s1 s2. toggle_context s cid = Inr s1 \<and> toggle_context s1 cid = Inr s2 \<and>
           (cid \<notin> set (activeContextsIds s) \<longrightarrow>
              set (activeContextsIds s1) = insert cid (set (activeContextsIds s))) \<and>
           (cid \<in> set (activeContextsIds s) \<longrightarrow>
              set (activeContextsIds s1) = set (activeContextsIds s) - {cid}) \<and>
           distinct (activeContextsIds s1) \<and>
           s1 = s\<lparr>activeContextsIds := activeContextsIds s1\<rparr> \<and>
           set (activeContextsIds s2) = set (activeContextsIds s)"
proof (cases "cid \<in> set (activeContextsIds s)")
  case True
  let ?s1 = "s\<lparr>activeContextsIds := remove1 cid (activeContextsIds s)\<rparr>"
  have t1: "toggle_context s cid = Inr ?s1"
    using assms(1) True by (rule toggle_context_present)
  have absent: "cid \<notin> set (activeContextsIds ?s1)"
    using assms(2) by simp
  have "find (\<lambda>c. item_id (heap ?s1 c) = cid) (contexts ?s1) = Some c"
    using assms(1) by simp
  from toggle_context_absent [OF this absent]
  have t2: "toggle_context ?s1 cid = Inr (?s1\<lparr>activeContextsIds := activeContextsIds ?s1 @ [cid]\<rparr>)" .
  show ?thesis
    using t1 t2 True assms(2) by (auto simp: set_remove1_eq)
next
  case False
  let ?s1 = "s\<lparr>activeContextsIds := activeContextsIds s @ [cid]\<rparr>"
  have t1: "toggle_context s cid = Inr ?s1"
    using assms(1) False by (rule toggle_context_absent)
  have present: "cid \<in> set (activeContextsIds ?s1)"
    by simp
  have "find (\<lambda>c. item_id (heap ?s1 c) = cid) (contexts ?s1) = Some c"
    using assms(1) by simp
  from toggle_context_present [OF this present]
  have t2: "toggle_context ?s1 cid = Inr (?s1\<lparr>activeContextsIds := remove1 cid (activeContextsIds ?s1)\<rparr>)" .
  show ?thesis
    using t1 t2 False assms(2) by (auto simp: remove1_append)
qed


theorem toggle_context_flips_membership_witness:
  "find (\<lambda>c. item_id (heap example_state c) = 13) (contexts example_state) = Some 3 \<and>
   distinct (activeContextsIds example_state) \<and>
   toggle_context example_state 13 = Inr (example_state\<lparr>activeContextsIds := [13]\<rparr>) \<and>
   toggle_context (example_state\<lparr>activeContextsIds := [13]\<rparr>) 13 = Inr example_state \<and>
   (\<exists>s1 s2. toggle_context example_state 13 = Inr s1 \<and> toggle_context s1 13 = Inr s2 \<and>
      set (activeContextsIds s1) = {13} \<and> set (activeContextsIds s2) = {})"
proof -
  have f: "find (\<lambda>c. item_id (heap example_state c) = 13) (contexts example_state) = Some 3"
    by (simp add: example_defs)
  have d: "distinct (activeContextsIds example_state)"
    by (simp add: example_defs)
  have a: "activeContextsIds example_state = []"
    by (simp add: example_defs)
  have e1: "toggle_context example_state 13 = Inr (example_state\<lparr>activeContextsIds := [13]\<rparr>)"
    by (simp add: toggle_context_def f a indexOf_def)
  have e2: "toggle_context (example_state\<lparr>activeContextsIds := [13]\<rparr>) 13 = Inr example_state"
    using f by (simp add: toggle_context_def indexOf_def splice_delete_def example_state_def)
  from toggle_context_flips_membership [OF f d] a
  have "\<exists>s1 s2. toggle_context example_state 13 = Inr s1 \<and> toggle_context s1 13 = Inr s2 \<and>
      set (activeContextsIds s1) = {13} \<and> set (activeContextsIds s2) = {}"
    by auto
  with f d e1 e2 show ?thesis by blast
qed


subsection \<open>Operations whose target is missing\<close>

text \<open>
  Claim C2, as stated, fails: an operation whose precondition fails is not always a
  no-op. With \<open>editGroup\<close> set, an \<^verbatim>\<open>edit_item\<close> whose id does not resolve changes the
  state (it clears the reference); \<^verbatim>\<open>delete_item\<close> with an id that does not resolve,
  \<^verbatim>\<open>delete_item\<close> on the root and \<^verbatim>\<open>update_group\<close> with a group id that does not resolve
  throw a \<open>TypeError\<close>.
\<close>

theorem failed_precondition_counterexample:
  "lookup (example_state\<lparr>editGroup := Some 1\<rparr>) 99 = Inr None \<and>
   edit_item (example_state\<lparr>editGroup := Some 1\<rparr>) 99 \<noteq> Inr (example_state\<lparr>editGroup := Some 1\<rparr>) \<and>
   lookup example_state 99 = Inr None \<and>
   delete_item example_state 99 = Inl (TypeError, example_state) \<and>
   lookup example_state 10 = Inr (Some 0) \<and> parent (heap example_state 0) = None \<and>
   delete_item example_state 10 = Inl (TypeError, example_state) \<and>
   update_group example_state 99 [] = Inl (TypeError, example_state)"
proof -
  have l0: "lookup (example_state\<lparr>editGroup := Some 1\<rparr>) 99 = Inr None"
    by (simp add: lookup_eval example_defs)
  have l1: "lookup example_state 99 = Inr None"
    by (simp add: lookup_eval example_defs)
  have l2: "lookup example_state 10 = Inr (Some 0)"
    by (simp add: lookup_eval example_defs)
  have p: "parent (heap example_state 0) = None"
    by (simp add: example_defs)
  have e: "edit_item (example_state\<lparr>editGroup := Some 1\<rparr>) 99
          \<noteq> Inr (example_state\<lparr>editGroup := Some 1\<rparr>)"
  proof
    assume "edit_item (example_state\<lparr>editGroup := Some 1\<rparr>) 99
          = Inr (example_state\<lparr>editGroup := Some 1\<rparr>)"
    then have "example_state\<lparr>editGroup := Some 1\<rparr>\<lparr>editGroup := None, editContext := None\<rparr>
          = example_state\<lparr>editGroup := Some 1\<rparr>"
      unfolding edit_item_def l0 by simp
    then have "editGroup (example_state\<lparr>editGroup := Some 1\<rparr>\<lparr>editGroup := None, editContext := None\<rparr>)
          = editGroup (example_state\<lparr>editGroup := Some 1\<rparr>)"
      by (rule arg_cong)
    then show False by simp
  qed
  have d1: "delete_item example_state 99 = Inl (TypeError, example_state)"
    by (simp add: delete_item_def l1)
  have d2: "delete_item example_state 10 = Inl (TypeError, example_state)"
    by (simp add: delete_item_def l2 p)
  have u: "update_group example_state 99 [] = Inl (TypeError, example_state)"
    by (simp add: update_group_def l1)
  from l0 l1 l2 p e d1 d2 u show ?thesis by blast
qed

text \<open>
  Claim C2, amended. An \<^verbatim>\<open>edit_item\<close> whose id does not resolve throws nothing and
  writes only the two editing references, clearing both, so it leaves the state exactly
  as it was when both were clear already. A \<^verbatim>\<open>toggle_context\<close> whose id is the id of no
  context of the flat list leaves the state exactly as it was. A \<^verbatim>\<open>delete_item\<close> whose
  id resolves to a node with a parent, where no entry of the parent's \<^verbatim>\<open>items\<close> has that
  id, leaves the state exactly as it was.
\<close>

theorem failed_precondition_behaviour:
  "(lookup s i = Inr None \<longrightarrow>
      edit_item s i = Inr (s\<lparr>editGroup := None, editContext := None\<rparr>))
   \<and> (lookup s i = Inr None \<and> editGroup s = None \<and> editContext s = None \<longrightarrow>
      edit_item s i = Inr s)
   \<and> (find (\<lambda>c. item_id (heap s c) = cid) (contexts s) = None \<longrightarrow>
      toggle_context s cid = Inr s)
   \<and> (lookup s i = Inr (Some it) \<and> parent (heap s it) = Some p \<and>
      items (heap s p) = Some its \<and> (\<forall>r\<in>set its. item_id (heap s r) \<noteq> i) \<longrightarrow>
      delete_item s i = Inr s)"
proof -
  have a: "lookup s i = Inr None \<Longrightarrow>
      edit_item s i = Inr (s\<lparr>editGroup := None, editContext := None\<rparr>)"
    by (simp add: edit_item_def)
  have b: "edit_item s i = Inr s"
    if "lookup s i = Inr None" "editGroup s = None" "editContext s = None"
  proof -
    have "s\<lparr>editGroup := None, editContext := None\<rparr> = s"
      using that(2,3) by simp
    with a [OF that(1)] show ?thesis by simp
  qed
  have c: "find (\<lambda>c. item_id (heap s c) = cid) (contexts s) = None \<Longrightarrow>
      toggle_context s cid = Inr s"
    by (simp add: toggle_context_def)
  have d: "delete_item s i = Inr s"
    if "lookup s i = Inr (Some it)" "parent (heap s it) = Some p"
       "items (heap s p) = Some its" "\<forall>r\<in>set its. item_id (heap s r) \<noteq> i"
  proof -
    from that(4) have "findIndex (\<lambda>r. item_id (heap s r) = i) its = None"
      by (simp add: findIndex_None)
    with that(1-3) show ?thesis by (simp add: delete_item_def)
  qed
  show ?thesis using a b c d by blast
qed

theorem failed_precondition_behaviour_witness:
  "lookup example_state 99 = Inr None \<and>
   editGroup example_state = None \<and> editContext example_state = None \<and>
   edit_item example_state 99 = Inr example_state \<and>
   find (\<lambda>c. item_id (heap example_state c) = 99) (contexts example_state) = None \<and>
   toggle_context example_state 99 = Inr example_state \<and>
   lookup stale_state 13 = Inr (Some 3) \<and> parent (heap stale_state 3) = Some 2 \<and>
   items (heap stale_state 2) = Some [] \<and>
   delete_item stale_state 13 = Inr stale_state"
proof -
  have l1: "lookup example_state 99 = Inr None"
    by (simp add: lookup_eval example_defs)
  have n: "editGroup example_state = None" "editContext example_state = None"
    by (simp_all add: example_defs)
  have f: "find (\<lambda>c. item_id (heap example_state c) = 99) (contexts example_state) = None"
    by (simp add: example_defs)
  have l2: "lookup stale_state 13 = Inr (Some 3)"
    by (simp add: lookup_eval stale_state_def example_defs)
  have p: "parent (heap stale_state 3) = Some 2"
    by (simp add: stale_state_def example_defs)
  have i: "items (heap stale_state 2) = Some []"
    by (simp add: stale_state_def example_defs)
  note t1 = failed_precondition_behaviour [of example_state 99 99]
  note t2 = failed_precondition_behaviour [of stale_state 13 _ 3 2 "[]"]
  from t1 l1 n have e: "edit_item example_state 99 = Inr example_state" by blast
  from t1 f have t: "toggle_context example_state 99 = Inr example_state" by blast
  from t2 l2 p i have d: "delete_item stale_state 13 = Inr stale_state" by simp
  from l1 n f l2 p i e t d show ?thesis by blast
qed


subsection \<open>Moving items between groups\<close>

lemma stamp_parent_apply:
  "stamp_parent g its h r = (if r \<in> set its then (h r)\<lparr>parent := Some g\<rparr> else h r)"
  unfolding stamp_parent_def
  by (induction its arbitrary: h) auto

lemma update_group_resolved:
  assumes "lookup s gid = Inr (Some g)"
  shows "update_group s gid V =
           Inr (s\<lparr>heap := stamp_parent g V ((heap s)(g := (heap s g)\<lparr>items := Some V\<rparr>))\<rparr>)"
  using assms by (simp add: update_group_def)

lemma update_group_items:
  assumes "lookup s gid = Inr (Some g)" and "update_group s gid V = Inr s'"
  shows "items (heap s' r) = (if r = g then Some V else items (heap s r))"
  using assms(2) unfolding update_group_resolved [OF assms(1)]
  by (auto simp: stamp_parent_apply)

lemma update_group_parent:
  assumes "lookup s gid = Inr (Some g)" and "update_group s gid V = Inr s'"
  shows "parent (heap s' r) = (if r \<in> set V then Some g else parent (heap s r))"
  using assms(2) unfolding update_group_resolved [OF assms(1)]
  by (auto simp: stamp_parent_apply)

text \<open>
  Claim C8. When the group id resolves to a group G, \<^verbatim>\<open>update_group\<close> with a list V
  succeeds, G's \<^verbatim>\<open>items\<close> is exactly V afterwards and every item of V has G as its
  parent. Moving an item from G1 to another group G2 by two such updates (G1's list
  without the item, then G2's list with the item inserted at some position) makes G1's
  list one shorter and G2's list one longer, and the item's parent is G2.
\<close>

theorem update_group_reparents:
  "(lookup s gid = Inr (Some g) \<longrightarrow>
      (\<exists>s'. update_group s gid V = Inr s' \<and> items (heap s' g) = Some V \<and>
         (\<forall>r\<in>set V. parent (heap s' r) = Some g)))
   \<and> (lookup s gid1 = Inr (Some g1) \<and> items (heap s g1) = Some I1 \<and>
      items (heap s g2) = Some I2 \<and> g1 \<noteq> g2 \<and> x \<in> set I1 \<and>
      update_group s gid1 (remove1 x I1) = Inr s1 \<and>
      lookup s1 gid2 = Inr (Some g2) \<and>
      update_group s1 gid2 (take k I2 @ x # drop k I2) = Inr s2 \<longrightarrow>
      (\<exists>J1 J2. items (heap s2 g1) = Some J1 \<and> length J1 + 1 = length I1 \<and>
         items (heap s2 g2) = Some J2 \<and> length J2 = length I2 + 1 \<and>
         parent (heap s2 x) = Some g2))"
proof -
  have a: "\<exists>s'. update_group s gid V = Inr s' \<and> items (heap s' g) = Some V \<and>
         (\<forall>r\<in>set V. parent (heap s' r) = Some g)"
    if l: "lookup s gid = Inr (Some g)"
  proof -
    obtain s' where s': "update_group s gid V = Inr s'"
      using update_group_resolved [OF l] by simp
    from update_group_items [OF l s'] update_group_parent [OF l s'] s'
    show ?thesis by auto
  qed
  have b: "\<exists>J1 J2. items (heap s2 g1) = Some J1 \<and> length J1 + 1 = length I1 \<and>
         items (heap s2 g2) = Some J2 \<and> length J2 = length I2 + 1 \<and>
         parent (heap s2 x) = Some g2"
    if l1: "lookup s gid1 = Inr (Some g1)" and i1: "items (heap s g1) = Some I1"
      and i2: "items (heap s g2) = Some I2" and ne: "g1 \<noteq> g2" and x: "x \<in> set I1"
      and u1: "update_group s gid1 (remove1 x I1) = Inr s1"
      and l2: "lookup s1 gid2 = Inr (Some g2)"
      and u2: "update_group s1 gid2 (take k I2 @ x # drop k I2) = Inr s2"
  proof -
    have "items (heap s1 g1) = Some (remove1 x I1)"
      using update_group_items [OF l1 u1] by simp
    then have j1: "items (heap s2 g1) = Some (remove1 x I1)"
      using update_group_items [OF l2 u2] ne by simp
    have len1: "length (remove1 x I1) + 1 = length I1"
      using x by (simp add: length_remove1) (metis length_pos_if_in_set Suc_pred)
    have j2: "items (heap s2 g2) = Some (take k I2 @ x # drop k I2)"
      using update_group_items [OF l2 u2] by simp
    have len2: "length (take k I2 @ x # drop k I2) = length I2 + 1"
      by simp
    have p: "parent (heap s2 x) = Some g2"
      using update_group_parent [OF l2 u2] by simp
    from j1 len1 j2 len2 p show ?thesis by blast
  qed
  show ?thesis using a b by blast
qed

theorem update_group_reparents_witness:
  "lookup example_state 11 = Inr (Some 1) \<and> items (heap example_state 1) = Some [3] \<and>
   items (heap example_state 2) = Some [] \<and> (1::nat) \<noteq> 2 \<and> (3::nat) \<in> set [3] \<and>
   update_group example_state 11 (remove1 3 [3]) =
     Inr (example_state\<lparr>heap := example_heap(1 := (example_heap 1)\<lparr>items := Some []\<rparr>)\<rparr>) \<and>
   lookup (example_state\<lparr>heap := example_heap(1 := (example_heap 1)\<lparr>items := Some []\<rparr>)\<rparr>) 12
     = Inr (Some 2) \<and>
   update_group (example_state\<lparr>heap := example_heap(1 := (example_heap 1)\<lparr>items := Some []\<rparr>)\<rparr>)
     12 (take 0 [] @ 3 # drop 0 []) = Inr (example_state\<lparr>heap := moved_heap\<rparr>) \<and>
   items (moved_heap 1) = Some [] \<and> items (moved_heap 2) = Some [3] \<and>
   parent (moved_heap 3) = Some 2 \<and>
   (\<exists>J1 J2. items (moved_heap 1) = Some J1 \<and> length J1 + 1 = length [3::nat] \<and>
      items (moved_heap 2) = Some J2 \<and> length J2 = length ([]::nat list) + 1)"
proof -
  let ?s1 = "example_state\<lparr>heap := example_heap(1 := (example_heap 1)\<lparr>items := Some []\<rparr>)\<rparr>"
  let ?s2 = "example_state\<lparr>heap := moved_heap\<rparr>"
  have l1: "lookup example_state 11 = Inr (Some 1)"
    by (simp add: lookup_eval example_defs)
  have i1: "items (heap example_state 1) = Some [3]"
    by (simp add: example_defs)
  have i2: "items (heap example_state 2) = Some []"
    by (simp add: example_defs)
  have u1: "update_group example_state 11 (remove1 3 [3]) = Inr ?s1"
    unfolding update_group_def l1 by (simp add: stamp_parent_def example_state_def)
  have l2: "lookup ?s1 12 = Inr (Some 2)"
    by (simp add: lookup_eval example_defs)
  have u2: "update_group ?s1 12 (take 0 [] @ 3 # drop 0 []) = Inr ?s2"
    unfolding update_group_def l2
    by (simp add: stamp_parent_def example_state_def moved_heap_def fun_upd_twist)
  have m: "items (moved_heap 1) = Some []" "items (moved_heap 2) = Some [3]"
    "parent (moved_heap 3) = Some 2"
    by (simp_all add: moved_heap_def)
  from update_group_reparents [of example_state 11 1 "[]" 11 1 "[3]" 2 "[]" 3 ?s1 12 0 ?s2]
    l1 i1 i2 u1 l2 u2
  have "\<exists>J1 J2. items (heap ?s2 1) = Some J1 \<and> length J1 + 1 = length [3::nat] \<and>
      items (heap ?s2 2) = Some J2 \<and> length J2 = length ([]::nat list) + 1 \<and>
      parent (heap ?s2 3) = Some 2"
    by simp
  then have e: "\<exists>J1 J2. items (moved_heap 1) = Some J1 \<and> length J1 + 1 = length [3::nat] \<and>
      items (moved_heap 2) = Some J2 \<and> length J2 = length ([]::nat list) + 1"
    by auto
  from l1 i1 i2 u1 l2 u2 m e show ?thesis by simp
qed


subsection \<open>Saving a context with an id the catalog does not have\<close>

text \<open>
  Claim C1 at a concrete input. The context (id 13) is saved with \<open>layerIds = [1, 99]\<close>;
  the catalog has the ids 1 and 2. The id 99 is not dropped: \<^verbatim>\<open>find\<close> gives
  \<^verbatim>\<open>undefined\<close> for it and \<^verbatim>\<open>map\<close> keeps that as the second entry of the context's
  \<^verbatim>\<open>layers\<close>. The recomputation of the times that follows reads \<^verbatim>\<open>l.type\<close> of that
  entry and throws a \<open>TypeError\<close>; the array with the \<^verbatim>\<open>undefined\<close> entry stays in the
  state.
\<close>

theorem save_context_keeps_unresolved_id:
  "lookup example_state (sc_id unresolved_payload) = Inr (Some 3) \<and>
   resolve_layerIds (layers example_state) (layerIds unresolved_payload) = [Some layer_A, None] \<and>
   (\<exists>s'. save_context js example_state unresolved_payload = Inl (TypeError, s') \<and>
      item_layers (heap s' 3) = [Some layer_A, None])"
proof -
  have l: "lookup example_state (sc_id unresolved_payload) = Inr (Some 3)"
    by (simp add: lookup_eval example_defs unresolved_payload_def)
  have r: "resolve_layerIds (layers example_state) (layerIds unresolved_payload)
             = [Some layer_A, None]"
    by (simp add: resolve_layerIds_def example_defs unresolved_payload_def)
  have c: "contexts example_state = [3]"
    by (simp add: example_defs)
  have "\<exists>s'. save_context js example_state unresolved_payload = Inl (TypeError, s') \<and>
      item_layers (heap s' 3) = [Some layer_A, None]"
    unfolding save_context_def l r
    by (simp add: setContextsTimes_def c aggregate_times_def)
  with l r show ?thesis by blast
qed


subsection \<open>Queryable layers\<close>

lemma filter_statistics_Some:
  "filter_statistics (map Some ls) = Inr (filter (\<lambda>l. statistics l \<noteq> None) ls)"
  by (induction ls) auto

lemma filter_statistics_Inr:
  "filter_statistics xs = Inr q \<Longrightarrow> xs = map Some (map the xs)"
  by (induction xs arbitrary: q rule: filter_statistics.induct) (auto split: sum.splits)

text \<open>
  Claim C7, as stated, fails: a layer whose \<^verbatim>\<open>statistics\<close> is an empty array is not
  excluded. Of the active layers A (no statistics), B (empty statistics array) and C (one
  descriptor), \<^verbatim>\<open>queryableLayers\<close> holds B and C.
\<close>

theorem queryableLayers_empty_statistics_counterexample:
  "activeLayers active_state = [Some layer_A, Some layer_B, Some layer_C] \<and>
   statistics layer_A = None \<and> statistics layer_B = Some [] \<and>
   queryableLayers active_state = Inr [layer_B, layer_C]"
proof -
  have a: "activeLayers active_state = [Some layer_A, Some layer_B, Some layer_C]"
    by (simp add: activeLayers_def active_state_def example_defs layer_C_def indexOf_def
        filter_pos_def upt_conv_Cons)
  have "queryableLayers active_state = Inr [layer_B, layer_C]"
    unfolding queryableLayers_def a by (simp add: layer_A_def layer_B_def layer_C_def)
  with a show ?thesis by (simp add: layer_A_def layer_B_def)
qed

text \<open>
  Claim C7, amended. \<^verbatim>\<open>queryableLayers\<close> is exactly the active layers whose
  \<^verbatim>\<open>statistics\<close> property is present, in the order of \<^verbatim>\<open>activeLayers\<close>; an empty
  statistics array counts as present, a layer without the property is excluded.
\<close>

theorem queryableLayers_present_statistics:
  "(activeLayers s = map Some ls \<longrightarrow>
      queryableLayers s = Inr (filter (\<lambda>l. statistics l \<noteq> None) ls))
   \<and> (queryableLayers s = Inr q \<longrightarrow>
      q = filter (\<lambda>l. statistics l \<noteq> None) (map the (activeLayers s)) \<and>
      (\<forall>l. l \<in> set q \<longleftrightarrow> Some l \<in> set (activeLayers s) \<and> statistics l \<noteq> None))"
proof -
  have a: "queryableLayers s = Inr (filter (\<lambda>l. statistics l \<noteq> None) ks)"
    if "activeLayers s = map Some ks" for ks
    using that by (simp add: queryableLayers_def filter_statistics_Some)
  have b: "q = filter (\<lambda>l. statistics l \<noteq> None) (map the (activeLayers s)) \<and>
      (\<forall>l. l \<in> set q \<longleftrightarrow> Some l \<in> set (activeLayers s) \<and> statistics l \<noteq> None)"
    if q: "queryableLayers s = Inr q"
  proof -
    from q have m: "activeLayers s = map Some (map the (activeLayers s))"
      unfolding queryableLayers_def by (rule filter_statistics_Inr)
    from a [OF m] q
    have e: "q = filter (\<lambda>l. statistics l \<noteq> None) (map the (activeLayers s))"
      by simp
    have "Some l \<in> set (activeLayers s) \<longleftrightarrow> l \<in> set (map the (activeLayers s))" for l
      by (subst m) auto
    with e show ?thesis by auto
  qed
  show ?thesis using a b by blast
qed

theorem queryableLayers_present_statistics_witness:
  "activeLayers active_state = map Some [layer_A, layer_B, layer_C] \<and>
   queryableLayers active_state
     = Inr (filter (\<lambda>l. statistics l \<noteq> None) [layer_A, layer_B, layer_C]) \<and>
   queryableLayers active_state = Inr [layer_B, layer_C] \<and>
   [layer_B, layer_C] = filter (\<lambda>l. statistics l \<noteq> None) (map the (activeLayers active_state))"
proof -
  have a: "activeLayers active_state = map Some [layer_A, layer_B, layer_C]"
    by (simp add: activeLayers_def active_state_def example_defs layer_C_def indexOf_def
        filter_pos_def upt_conv_Cons)
  note t = queryableLayers_present_statistics [of active_state "[layer_A, layer_B, layer_C]" "[layer_B, layer_C]"]
  from t a have q: "queryableLayers active_state
     = Inr (filter (\<lambda>l. statistics l \<noteq> None) [layer_A, layer_B, layer_C])"
    by blast
  then have q': "queryableLayers active_state = Inr [layer_B, layer_C]"
    by (simp add: layer_A_def layer_B_def layer_C_def)
  from t q' have "[layer_B, layer_C] = filter (\<lambda>l. statistics l \<noteq> None) (map the (activeLayers active_state))"
    by blast
  with a q q' show ?thesis by blast
qed


subsection \<open>The times of a context\<close>




subsection \<open>The layers of a context after the catalog was replaced\<close>

text \<open>
  Claim C5. \<^verbatim>\<open>update_layers\<close> with a catalog L returns whenever no \<^verbatim>\<open>layers\<close> array of a
  context holds \<^verbatim>\<open>undefined\<close>. When it returns, the catalog is L and the \<^verbatim>\<open>layers\<close> array
  of every context of the flat list is its old array re-resolved against L: every entry
  is a layer of L, no entry is \<^verbatim>\<open>undefined\<close>, and the ids of the new array are the ids of
  the old one that L has, in the old order.
\<close>

theorem update_layers_reresolves:
  "((\<forall>c\<in>set (contexts s). None \<notin> set (item_layers (heap s c))) \<longrightarrow>
      (\<exists>s'. update_layers js s L = Inr s'))
   \<and> (update_layers js s L = Inr s' \<longrightarrow>
      layers s' = L \<and> contexts s' = contexts s \<and>
      (\<forall>c\<in>set (contexts s'). \<exists>old new.
         item_layers (heap s c) = map Some old \<and>
         item_layers (heap s' c) = map Some new \<and>
         new = reresolve L old \<and> set new \<subseteq> set L \<and>
         map layer_id new = filter (\<lambda>i. i \<in> layer_id ` set L) (map layer_id old)))"
proof -
  have total: "\<exists>s'. update_layers js s L = Inr s'"
    if "\<forall>c\<in>set (contexts s). None \<notin> set (item_layers (heap s c))"
    using that by (rule update_layers_total)
  have result: "layers s' = L \<and> contexts s' = contexts s \<and>
      (\<forall>c\<in>set (contexts s'). \<exists>old new.
         item_layers (heap s c) = map Some old \<and>
         item_layers (heap s' c) = map Some new \<and>
         new = reresolve L old \<and> set new \<subseteq> set L \<and>
         map layer_id new = filter (\<lambda>i. i \<in> layer_id ` set L) (map layer_id old))"
    if u: "update_layers js s L = Inr s'"
  proof (intro conjI ballI)
    show "layers s' = L" using u by (rule update_layers_result)
    show cs: "contexts s' = contexts s" using u by (rule update_layers_result)
    fix c
    assume "c \<in> set (contexts s')"
    with cs have c: "c \<in> set (contexts s)" by simp
    let ?old = "map the (item_layers (heap s c))"
    have "item_layers (heap s c) = map Some ?old"
      using u c by (rule update_layers_result)
    moreover have "item_layers (heap s' c) = map Some (reresolve L ?old)"
      using u c by (rule update_layers_result)
    moreover have "set (reresolve L ?old) \<subseteq> set L"
      by (rule reresolve_subset)
    moreover have "map layer_id (reresolve L ?old)
        = filter (\<lambda>i. i \<in> layer_id ` set L) (map layer_id ?old)"
      by (rule reresolve_ids)
    ultimately show "\<exists>old new.
         item_layers (heap s c) = map Some old \<and>
         item_layers (heap s' c) = map Some new \<and>
         new = reresolve L old \<and> set new \<subseteq> set L \<and>
         map layer_id new = filter (\<lambda>i. i \<in> layer_id ` set L) (map layer_id old)"
      by blast
  qed
  show ?thesis using total result by blast
qed

theorem update_layers_reresolves_witness:
  "contexts two_layer_state = [3] \<and>
   item_layers (heap two_layer_state 3) = [Some layer_A, Some layer_B] \<and>
   reresolve [layer_B, layer_C] [layer_A, layer_B] = [layer_B] \<and>
   (\<exists>s'. update_layers example_builtins two_layer_state [layer_B, layer_C] = Inr s' \<and>
      layers s' = [layer_B, layer_C] \<and> contexts s' = [3] \<and>
      item_layers (heap s' 3) = [Some layer_B])"
proof -
  have cs: "contexts two_layer_state = [3]"
    by (simp add: two_layer_state_def example_defs)
  have ls: "item_layers (heap two_layer_state 3) = [Some layer_A, Some layer_B]"
    by (simp add: two_layer_state_def example_defs)
  have r: "reresolve [layer_B, layer_C] [layer_A, layer_B] = [layer_B]"
    by (simp add: reresolve_def layer_A_def layer_B_def layer_C_def)
  have defined: "\<forall>c\<in>set (contexts two_layer_state).
      None \<notin> set (item_layers (heap two_layer_state c))"
    by (simp add: cs ls)
  note t = update_layers_reresolves [of two_layer_state example_builtins "[layer_B, layer_C]"]
  from t defined obtain s'
    where s': "update_layers example_builtins two_layer_state [layer_B, layer_C] = Inr s'"
    by blast
  from t [of s'] s' have f: "layers s' = [layer_B, layer_C]" "contexts s' = [3]"
    by (simp_all add: cs)
  from t [of s'] s' f(2) obtain old new
    where "item_layers (heap two_layer_state 3) = map Some old"
      and "item_layers (heap s' 3) = map Some new"
      and "new = reresolve [layer_B, layer_C] old"
    by auto
  with ls r have "item_layers (heap s' 3) = [Some layer_B]"
    by auto
  with s' f have "\<exists>s'. update_layers example_builtins two_layer_state [layer_B, layer_C] = Inr s' \<and>
      layers s' = [layer_B, layer_C] \<and> contexts s' = [3] \<and>
      item_layers (heap s' 3) = [Some layer_B]"
    by blast
  with cs ls r show ?thesis by blast
qed


subsection \<open>The current time of a context\<close>




















section \<open>Properties of the schema\<close>

lemma all_keywords_mem:
  "sch \<in> set parts \<Longrightarrow> v \<in> set (sch p j) \<Longrightarrow> v \<in> set (all_keywords parts p j)"
  by (auto simp: all_keywords_def)

lemma all_keywords_second:
  "v \<in> set (sch p j) \<Longrightarrow> v \<in> set (all_keywords [first, sch] p j)"
  by (simp add: all_keywords_def)

lemma properties_mem:
  assumes "(k, x) \<in> set m" and "map_of props k = Some sch" and "v \<in> set (sch (p @ [Key k]) x)"
  shows "v \<in> set (properties props p (JObject m))"
  using assms by (force simp: properties_def)

lemma no_additional_mem:
  "(k, x) \<in> set m \<Longrightarrow> k \<notin> set names \<Longrightarrow>
   (p @ [Key k], ''additionalProperties'') \<in> set (no_additional names p (JObject m))"
  by (force simp: no_additional_def)

lemma required_missing:
  "k \<in> set names \<Longrightarrow> k \<notin> fst ` set m \<Longrightarrow> (p, ''required'') \<in> set (required names p (JObject m))"
  by (auto simp: required_def)

lemma array_items_mem:
  assumes "i < length xs" and "v \<in> set (sch (p @ [Index i]) (xs ! i))"
  shows "v \<in> set (array_items sch p (JArray xs))"
proof -
  from assms(1) have "(i, xs ! i) \<in> set (enumerate 0 xs)"
    by (simp add: in_set_enumerate_eq)
  with assms(2) show ?thesis
    by (force simp: array_items_def)
qed

lemma closed_properties_additional:
  "(k, x) \<in> set m \<Longrightarrow> k \<notin> fst ` set props \<Longrightarrow>
   (p @ [Key k], ''additionalProperties'') \<in> set (closed_properties props names p (JObject m))"
  unfolding closed_properties_def
  by (rule all_keywords_mem [where sch = "no_additional (map fst props)"])
     (auto intro: no_additional_mem)

lemma closed_properties_required:
  "k \<in> set names \<Longrightarrow> k \<notin> fst ` set m \<Longrightarrow>
   (p, ''required'') \<in> set (closed_properties props names p (JObject m))"
  unfolding closed_properties_def
  by (rule all_keywords_mem [where sch = "required names"]) (auto intro: required_missing)

lemma closed_properties_member:
  "(k, x) \<in> set m \<Longrightarrow> map_of props k = Some sch \<Longrightarrow> v \<in> set (sch (p @ [Key k]) x) \<Longrightarrow>
   v \<in> set (closed_properties props names p (JObject m))"
  unfolding closed_properties_def
  by (rule all_keywords_mem [where sch = "properties props"]) (auto intro: properties_mem)

lemma wms_missing_required:
  assumes "''serverUrls'' \<notin> fst ` set e \<or> ''name'' \<notin> fst ` set e \<or> ''id'' \<notin> fst ` set e"
  shows "wms p (JObject e) \<noteq> []"
proof -
  from assms obtain k where "k \<in> set [''id'', ''name'', ''serverUrls'']" "k \<notin> fst ` set e"
    by auto
  then have "(p, ''required'') \<in> set (wms p (JObject e))"
    unfolding wms_def
    by (intro all_keywords_second closed_properties_required [where k = k])
  then show ?thesis by auto
qed

lemma typed_layer_mismatch:
  assumes "(''type'', JString t) \<notin> set e"
  shows "all_keywords [is_type ''object'',
       closed_properties
         [(''type'', enum [JString t]), (''id'', is_type ''number''),
          (''visible'', is_type ''boolean'')]
         [''type'', ''id'']] p (JObject e) \<noteq> []"
    (is "?sch p (JObject e) \<noteq> []")
proof (cases "''type'' \<in> fst ` set e")
  case True
  then obtain x where x: "(''type'', x) \<in> set e"
    by auto
  with assms have "x \<noteq> JString t" by auto
  then have "(p @ [Key ''type''], ''enum'') \<in> set (enum [JString t] (p @ [Key ''type'']) x)"
    by (simp add: enum_def)
  with x have "(p @ [Key ''type''], ''enum'') \<in> set (?sch p (JObject e))"
    by (intro all_keywords_second
        closed_properties_member [where k = "''type''" and x = x and sch = "enum [JString t]"])
      simp_all
  then show ?thesis by auto
next
  case False
  then have "(p, ''required'') \<in> set (?sch p (JObject e))"
    by (intro all_keywords_second closed_properties_required [where k = "''type''"]) simp_all
  then show ?thesis by auto
qed

lemma layer_one_of_fails:
  assumes "(''type'', JString ''bing-aerial'') \<notin> set e" and "(''type'', JString ''osm'') \<notin> set e"
    and "''serverUrls'' \<notin> fst ` set e \<or> ''name'' \<notin> fst ` set e \<or> ''id'' \<notin> fst ` set e"
  shows "one_of [wms, bingAerial, osm] p (JObject e) = [(p, ''oneOf'')]"
proof -
  have "wms p (JObject e) \<noteq> []"
    using assms(3) by (rule wms_missing_required)
  moreover have "bingAerial p (JObject e) \<noteq> []"
    unfolding bingAerial_def using assms(1) by (rule typed_layer_mismatch)
  moreover have "osm p (JObject e) \<noteq> []"
    unfolding osm_def using assms(2) by (rule typed_layer_mismatch)
  ultimately show ?thesis
    by (simp add: one_of_def)
qed

lemma config_schema_member:
  assumes "(k, x) \<in> set m"
    and "map_of
         [(''$schema'', is_type ''string''),
          (''layers'', all_keywords [is_type ''array'', array_items (one_of [wms, bingAerial, osm])]),
          (''contexts'', all_keywords [is_type ''array'', array_items context_schema]),
          (''group'', all_keywords [is_type ''object'',
             closed_properties
               [(''items'', items_schema), (''exclusive'', is_type ''boolean'')] []])] k = Some sch"
    and "v \<in> set (sch (p @ [Key k]) x)"
  shows "v \<in> set (config_schema p (JObject m))"
  unfolding config_schema_def
  by (intro all_keywords_second closed_properties_member [OF assms])

text \<open>
  Claim C9. A document with a top-level member other than \<^verbatim>\<open>layers\<close>, \<^verbatim>\<open>contexts\<close>,
  \<^verbatim>\<open>group\<close> and \<^verbatim>\<open>$schema\<close> is rejected, with a violation at the path of that member. A
  document whose \<^verbatim>\<open>layers\<close> array has, at some index, an object that is no
  \<^verbatim>\<open>bing-aerial\<close> and no \<^verbatim>\<open>osm\<close> layer by its \<^verbatim>\<open>type\<close> and lacks \<^verbatim>\<open>serverUrls\<close>, \<^verbatim>\<open>name\<close>
  or \<^verbatim>\<open>id\<close> is rejected, with a violation at the path of that entry (it matches none of
  the three layer schemas).
\<close>

theorem config_schema_rejects:
  "(k \<in> fst ` set members \<and> k \<notin> {''layers'', ''contexts'', ''group'', ''$schema''} \<longrightarrow>
      ([Key k], ''additionalProperties'') \<in> set (config_schema [] (JObject members)) \<and>
      \<not> accepts config_schema (JObject members))
   \<and> ((''layers'', JArray ls) \<in> set members \<and> i < length ls \<and> ls ! i = JObject entry \<and>
      (''type'', JString ''bing-aerial'') \<notin> set entry \<and>
      (''type'', JString ''osm'') \<notin> set entry \<and>
      (''serverUrls'' \<notin> fst ` set entry \<or> ''name'' \<notin> fst ` set entry \<or>
       ''id'' \<notin> fst ` set entry) \<longrightarrow>
      ([Key ''layers'', Index i], ''oneOf'') \<in> set (config_schema [] (JObject members)) \<and>
      \<not> accepts config_schema (JObject members))"
proof -
  have unknown: "([Key k], ''additionalProperties'') \<in> set (config_schema [] (JObject members))"
    if "k \<in> fst ` set members" "k \<notin> {''layers'', ''contexts'', ''group'', ''$schema''}"
  proof -
    from that(1) obtain x where "(k, x) \<in> set members" by auto
    with that(2) have "([] @ [Key k], ''additionalProperties'') \<in> set (config_schema [] (JObject members))"
      unfolding config_schema_def
      by (intro all_keywords_second closed_properties_additional [where x = x]) auto
    then show ?thesis by simp
  qed
  have layer: "([Key ''layers'', Index i], ''oneOf'') \<in> set (config_schema [] (JObject members))"
    if l: "(''layers'', JArray ls) \<in> set members" and i: "i < length ls"
      and e: "ls ! i = JObject entry"
      and t: "(''type'', JString ''bing-aerial'') \<notin> set entry"
        "(''type'', JString ''osm'') \<notin> set entry"
      and r: "''serverUrls'' \<notin> fst ` set entry \<or> ''name'' \<notin> fst ` set entry \<or>
        ''id'' \<notin> fst ` set entry"
  proof -
    let ?p = "[] @ [Key ''layers'']"
    from layer_one_of_fails [OF t r, of "?p @ [Index i]"] e
    have "(?p @ [Index i], ''oneOf'') \<in> set (one_of [wms, bingAerial, osm] (?p @ [Index i]) (ls ! i))"
      by simp
    with i have "(?p @ [Index i], ''oneOf'')
        \<in> set (array_items (one_of [wms, bingAerial, osm]) ?p (JArray ls))"
      by (rule array_items_mem)
    then have "(?p @ [Index i], ''oneOf'')
        \<in> set (all_keywords [is_type ''array'', array_items (one_of [wms, bingAerial, osm])]
                 ?p (JArray ls))"
      by (rule all_keywords_second)
    with l have "(?p @ [Index i], ''oneOf'') \<in> set (config_schema [] (JObject members))"
      by (intro config_schema_member [where k = "''layers''" and x = "JArray ls"]) simp_all
    then show ?thesis by simp
  qed
  have rejected: "v \<in> set (config_schema [] doc) \<Longrightarrow> \<not> accepts config_schema doc" for v doc
    by (auto simp: accepts_def)
  from unknown layer rejected show ?thesis by blast
qed

lemmas schema_defs = config_schema_def context_schema_def wms_def bingAerial_def osm_def
  context_ref_def labels_schema_def wmsLegend_def urlLegend_def attributesStatistics_def
  urlStatistics_def closed_properties_def all_keywords_def properties_def required_def
  no_additional_def array_items_def one_of_def is_type_def enum_def pattern_def

lemmas pattern_defs = matches_def time_pattern_def optional_def digit_def digits2_def

lemma example_document_accepted: "accepts config_schema example_document"
  by (simp add: accepts_def example_document_def schema_defs pattern_defs enumerate_eq_zip
      upt_conv_Cons)

theorem config_schema_rejects_witness:
  "''title'' \<in> fst ` set unknown_key_members \<and>
   ''title'' \<notin> {''layers'', ''contexts'', ''group'', ''$schema''} \<and>
   ([Key ''title''], ''additionalProperties'')
     \<in> set (config_schema [] (JObject unknown_key_members)) \<and>
   \<not> accepts config_schema (JObject unknown_key_members) \<and>
   (''layers'', JArray [JObject [(''type'', JString ''osm''), (''id'', JNumber 2)],
                       JObject incomplete_layer]) \<in> set incomplete_layer_members \<and>
   ''serverUrls'' \<notin> fst ` set incomplete_layer \<and>
   ([Key ''layers'', Index 1], ''oneOf'')
     \<in> set (config_schema [] (JObject incomplete_layer_members)) \<and>
   \<not> accepts config_schema (JObject incomplete_layer_members) \<and>
   accepts config_schema example_document"
proof -
  let ?ls = "[JObject [(''type'', JString ''osm''), (''id'', JNumber 2)], JObject incomplete_layer]"
  have k: "''title'' \<in> fst ` set unknown_key_members"
    "''title'' \<notin> {''layers'', ''contexts'', ''group'', ''$schema''}"
    by (simp_all add: unknown_key_members_def)
  have l: "(''layers'', JArray ?ls) \<in> set incomplete_layer_members"
    by (simp add: incomplete_layer_members_def)
  have i: "1 < length ?ls" "?ls ! 1 = JObject incomplete_layer"
    by simp_all
  have e: "(''type'', JString ''bing-aerial'') \<notin> set incomplete_layer"
    "(''type'', JString ''osm'') \<notin> set incomplete_layer"
    "''serverUrls'' \<notin> fst ` set incomplete_layer"
    by (simp_all add: incomplete_layer_def)
  have h1: "''title'' \<in> fst ` set unknown_key_members \<and>
      ''title'' \<notin> {''layers'', ''contexts'', ''group'', ''$schema''}"
    using k by (intro conjI)
  have h2: "(''layers'', JArray ?ls) \<in> set incomplete_layer_members \<and> 1 < length ?ls \<and>
      ?ls ! 1 = JObject incomplete_layer \<and>
      (''type'', JString ''bing-aerial'') \<notin> set incomplete_layer \<and>
      (''type'', JString ''osm'') \<notin> set incomplete_layer \<and>
      (''serverUrls'' \<notin> fst ` set incomplete_layer \<or> ''name'' \<notin> fst ` set incomplete_layer \<or>
       ''id'' \<notin> fst ` set incomplete_layer)"
    using l i e by (intro conjI disjI1)
  note t1 = config_schema_rejects [of "''title''" unknown_key_members ?ls 1 incomplete_layer]
  note t2 = config_schema_rejects [of "''title''" incomplete_layer_members ?ls 1 incomplete_layer]
  note c1 = mp [OF conjunct1 [OF t1] h1]
  note c2 = mp [OF conjunct2 [OF t2] h2]
  note r1 = conjunct1 [OF c1] conjunct2 [OF c1]
  note r2 = conjunct1 [OF c2] conjunct2 [OF c2]
  from k l e(3) r1 r2 example_document_accepted show ?thesis
    by (intro conjI)
qed

end
